theory Spec2Isabelle
  imports Main "HOL-Library.AList" "HOL-Library.Sublist"
begin

section \<open>Path strings\<close>

text \<open>
  Paths are Python strings. The functions of \<^verbatim>\<open>os.path\<close> that the bootstrapper calls are
  modelled as \<^verbatim>\<open>posixpath\<close> defines them, on strings.
\<close>

definition startswith_slash :: "string \<Rightarrow> bool" where
  "startswith_slash p = (case p of [] \<Rightarrow> False | c # _ \<Rightarrow> c = CHR ''/'')"

definition endswith :: "string \<Rightarrow> string \<Rightarrow> bool" where
  "endswith s suf = (length suf \<le> length s \<and> drop (length s - length suf) s = suf)"

text \<open>
  \<^verbatim>\<open>os.path.join(a, b)\<close>: an absolute second argument replaces the first; otherwise the
  two are concatenated, with a separator unless the first is empty or already ends in one.
\<close>

definition os_path_join :: "string \<Rightarrow> string \<Rightarrow> string" where
  "os_path_join a b =
     (if startswith_slash b then b
      else if a = [] \<or> endswith a ''/'' then a @ b
      else a @ ''/'' @ b)"

text \<open>
  \<^verbatim>\<open>os.path.dirname(p)\<close>: everything up to and including the last separator, with
  trailing separators stripped unless the head consists of separators only.
\<close>

definition rstrip_slash :: "string \<Rightarrow> string" where
  "rstrip_slash p = rev (dropWhile (\<lambda>c. c = CHR ''/'') (rev p))"

definition path_head :: "string \<Rightarrow> string" where
  "path_head p = rev (dropWhile (\<lambda>c. c \<noteq> CHR ''/'') (rev p))"

definition os_path_dirname :: "string \<Rightarrow> string" where
  "os_path_dirname p =
     (let head = path_head p
      in if head \<noteq> [] \<and> rstrip_slash head \<noteq> [] then rstrip_slash head else head)"

definition os_path_basename :: "string \<Rightarrow> string" where
  "os_path_basename p = rev (takeWhile (\<lambda>c. c \<noteq> CHR ''/'') (rev p))"

text \<open>
  Splitting a path at its separators, as \<^verbatim>\<open>p.split('/')\<close> does, and the components the
  kernel walks: empty segments and \<^verbatim>\<open>.\<close> name the directory reached so far.  The model has no
  symbolic links, and a segment \<^verbatim>\<open>..\<close> is looked up like any other name.
\<close>

fun split_slash :: "string \<Rightarrow> string list" where
  "split_slash [] = [[]]"
| "split_slash (c # cs) =
     (if c = CHR ''/'' then [] # split_slash cs
      else (case split_slash cs of [] \<Rightarrow> [[c]] | w # ws \<Rightarrow> (c # w) # ws))"

definition proper_name :: "string \<Rightarrow> bool" where
  "proper_name w = (w \<noteq> [] \<and> w \<noteq> ''.'')"

definition components :: "string \<Rightarrow> string list" where
  "components p = filter proper_name (split_slash p)"

text \<open>A path whose last segment is empty or \<^verbatim>\<open>.\<close> can only name a directory.\<close>

definition names_directory :: "string \<Rightarrow> bool" where
  "names_directory p = (\<not> proper_name (last (split_slash p)))"

section \<open>File system\<close>

text \<open>
  The file system is a tree of regular files and directories.  A file has its content, its
  modification time and its write-protection flag; a directory has its write-protection flag and
  its entries by name.  Write protection is the attribute that \<^verbatim>\<open>os.chmod(path, stat.S_IWRITE)\<close>
  clears: a write-protected entry can neither be removed nor opened for writing.
\<close>

datatype node =
    File (content: string) (mtime: nat) (readonly: bool)
  | Dir (readonly: bool) (entries: "(string \<times> node) list")


datatype oserror =
    FileNotFoundError
  | FileExistsError
  | NotADirectoryError
  | IsADirectoryError
  | PermissionError
  | DirectoryNotEmpty
  | DeviceBusy

fun node_at :: "node \<Rightarrow> string list \<Rightarrow> node option" where
  "node_at n [] = Some n"
| "node_at (File c m r) (x # xs) = None"
| "node_at (Dir r es) (x # xs) = (case map_of es x of None \<Rightarrow> None | Some n \<Rightarrow> node_at n xs)"

text \<open>
  \<open>put_at t p v\<close> replaces (or, for \<open>None\<close>, removes) the entry at \<open>p\<close>; the tree is unchanged when
  the parent of \<open>p\<close> is not a directory of the tree, and the root cannot be removed.
\<close>

fun put_at :: "node \<Rightarrow> string list \<Rightarrow> node option \<Rightarrow> node" where
  "put_at n [] v = (case v of None \<Rightarrow> n | Some n' \<Rightarrow> n')"
| "put_at (File c m r) (x # xs) v = File c m r"
| "put_at (Dir r es) (x # xs) v =
     (if xs = [] then
        (case v of None \<Rightarrow> Dir r (AList.delete x es) | Some n \<Rightarrow> Dir r (AList.update x n es))
      else
        (case map_of es x of
           None \<Rightarrow> Dir r es
         | Some n \<Rightarrow> Dir r (AList.update x (put_at n xs v) es)))"

text \<open>
  \<^verbatim>\<open>os.makedirs(path, exist_ok=True)\<close> along the components of the path: missing directories
  are created, existing ones are entered, and a regular file in the way is an error.
\<close>

fun mkdirs :: "node \<Rightarrow> string list \<Rightarrow> oserror + node" where
  "mkdirs (File c m r) [] = Inl FileExistsError"
| "mkdirs (File c m r) (x # xs) = Inl NotADirectoryError"
| "mkdirs (Dir r es) [] = Inr (Dir r es)"
| "mkdirs (Dir r es) (x # xs) =
     (case map_of es x of
        None \<Rightarrow>
          (case mkdirs (Dir False []) xs of
             Inl e \<Rightarrow> Inl e
           | Inr d \<Rightarrow> Inr (Dir r (AList.update x d es)))
      | Some n \<Rightarrow>
          (case mkdirs n xs of
             Inl e \<Rightarrow> Inl e
           | Inr n' \<Rightarrow> Inr (Dir r (AList.update x n' es))))"

subsection \<open>Removing entries\<close>

text \<open>
  The functions that \<^verbatim>\<open>shutil.rmtree\<close> hands to its \<^verbatim>\<open>onerror\<close> callback, applied to one
  entry: \<open>None\<close> is success, and for \<open>Os_unlink\<close> and \<open>Os_rmdir\<close> success removes the entry.
\<close>

datatype osfunc = Os_scandir | Os_unlink | Os_rmdir

definition os_scandir :: "node \<Rightarrow> oserror option" where
  "os_scandir n = (case n of File c m r \<Rightarrow> Some NotADirectoryError | Dir r es \<Rightarrow> None)"

definition os_unlink :: "node \<Rightarrow> oserror option" where
  "os_unlink n =
     (case n of
        File c m r \<Rightarrow> if r then Some PermissionError else None
      | Dir r es \<Rightarrow> Some IsADirectoryError)"

definition os_rmdir :: "node \<Rightarrow> oserror option" where
  "os_rmdir n =
     (case n of
        File c m r \<Rightarrow> Some NotADirectoryError
      | Dir r es \<Rightarrow>
          if r then Some PermissionError
          else if es \<noteq> [] then Some DirectoryNotEmpty
          else None)"

definition os_chmod_S_IWRITE :: "node \<Rightarrow> node" where
  "os_chmod_S_IWRITE n = (case n of File c m r \<Rightarrow> File c m False | Dir r es \<Rightarrow> Dir False es)"

text \<open>
  An \<^verbatim>\<open>onerror\<close> callback gets the function that failed and the entry it failed on; it
  returns the error it raises, if any, and what is left of the entry.
\<close>

type_synonym onerror = "osfunc \<Rightarrow> node \<Rightarrow> oserror option \<times> node option"

text \<open>
  \<^verbatim>\<open>remove_readonly(func, path, _)\<close> of \<^verbatim>\<open>TaskExecutor._delete\<close>:
  \<^verbatim>\<open>os.chmod(path, stat.S_IWRITE); func(path)\<close>.
\<close>

definition remove_readonly :: onerror where
  "remove_readonly func n =
     (let n' = os_chmod_S_IWRITE n
      in case func of
           Os_scandir \<Rightarrow> (os_scandir n', Some n')
         | Os_unlink \<Rightarrow> (case os_unlink n' of None \<Rightarrow> (None, None) | Some e \<Rightarrow> (Some e, Some n'))
         | Os_rmdir \<Rightarrow> (case os_rmdir n' of None \<Rightarrow> (None, None) | Some e \<Rightarrow> (Some e, Some n')))"

definition keep_entry :: "string \<Rightarrow> node option \<Rightarrow> (string \<times> node) list \<Rightarrow> (string \<times> node) list" where
  "keep_entry x n rest = (case n of None \<Rightarrow> rest | Some n' \<Rightarrow> (x, n') # rest)"

text \<open>
  \<^verbatim>\<open>shutil.rmtree\<close> below a directory: every entry is removed in turn, subdirectories first
  emptied; a failing \<^verbatim>\<open>os.unlink\<close> or \<^verbatim>\<open>os.rmdir\<close> is handed to the callback, and an error the
  callback raises ends the walk.  The result is that error, if any, and what is left.
\<close>

fun rmtree_unsafe :: "onerror \<Rightarrow> node \<Rightarrow> oserror option \<times> node option"
  and rmtree_entries :: "onerror \<Rightarrow> (string \<times> node) list \<Rightarrow> oserror option \<times> (string \<times> node) list" where
  "rmtree_unsafe h (File c m r) = (Some NotADirectoryError, Some (File c m r))"
| "rmtree_unsafe h (Dir r es) =
     (case rmtree_entries h es of
        (Some e, es') \<Rightarrow> (Some e, Some (Dir r es'))
      | (None, es') \<Rightarrow>
          (case os_rmdir (Dir r es') of
             None \<Rightarrow> (None, None)
           | Some e \<Rightarrow> h Os_rmdir (Dir r es')))"
| "rmtree_entries h [] = (None, [])"
| "rmtree_entries h ((x, File c m r) # rest) =
     (case os_unlink (File c m r) of
        None \<Rightarrow> rmtree_entries h rest
      | Some e \<Rightarrow>
          (case h Os_unlink (File c m r) of
             (Some e', n') \<Rightarrow> (Some e', keep_entry x n' rest)
           | (None, n') \<Rightarrow>
               (case rmtree_entries h rest of (e'', rest') \<Rightarrow> (e'', keep_entry x n' rest'))))"
| "rmtree_entries h ((x, Dir r es) # rest) =
     (case rmtree_unsafe h (Dir r es) of
        (Some e, n') \<Rightarrow> (Some e, keep_entry x n' rest)
      | (None, n') \<Rightarrow>
          (case rmtree_entries h rest of (e', rest') \<Rightarrow> (e', keep_entry x n' rest')))"

subsection \<open>Writing and copying entries\<close>

text \<open>
  \<^verbatim>\<open>open(path, 'wb')\<close> followed by writing \<open>data\<close>, on the entry found at the path (if any) in
  an existing parent directory: a new file is created, an existing file is truncated and keeps its
  mode, a write-protected file and a directory cannot be opened for writing.
\<close>

definition write_node :: "nat \<Rightarrow> string \<Rightarrow> node option \<Rightarrow> oserror + node" where
  "write_node clock data slot =
     (case slot of
        None \<Rightarrow> Inr (File data clock False)
      | Some (File c m r) \<Rightarrow> if r then Inl PermissionError else Inr (File data clock r)
      | Some (Dir r es) \<Rightarrow> Inl IsADirectoryError)"

text \<open>\<^verbatim>\<open>shutil.copystat(src, dst)\<close>: the modification time and the mode of the source.\<close>

definition copystat :: "node \<Rightarrow> node \<Rightarrow> node" where
  "copystat src dst =
     (case dst of
        File c m r \<Rightarrow> File c (case src of File c' m' r' \<Rightarrow> m' | Dir r' es' \<Rightarrow> m) (readonly src)
      | Dir r es \<Rightarrow> Dir (readonly src) es)"

text \<open>
  \<^verbatim>\<open>shutil.copy2(src, dst)\<close> for a source file named \<open>name\<close>: a destination that is a directory
  receives the file under the source's name; then the content is written and the metadata copied.
\<close>

fun copy2_node :: "nat \<Rightarrow> node \<Rightarrow> string \<Rightarrow> node option \<Rightarrow> oserror + node" where
  "copy2_node clock (Dir r es) name slot = Inl IsADirectoryError"
| "copy2_node clock (File c m r) name slot =
     (case slot of
        Some (Dir rd ed) \<Rightarrow>
          (case write_node clock c (map_of ed name) of
             Inl e \<Rightarrow> Inl e
           | Inr f \<Rightarrow> Inr (Dir rd (AList.update name (copystat (File c m r) f) ed)))
      | _ \<Rightarrow>
          (case write_node clock c slot of
             Inl e \<Rightarrow> Inl e
           | Inr f \<Rightarrow> Inr (copystat (File c m r) f)))"

text \<open>Python exceptions; \<^verbatim>\<open>shutil.Error\<close> carries the list of (source, destination, reason).\<close>

datatype exn =
    OSError oserror
  | ShutilError "(string \<times> string \<times> oserror) list"
  | SameFileError
  | TypeError
  | KeyError string
  | RequestException string
  | HTTPError nat
  | ArchiveError string

text \<open>
  \<^verbatim>\<open>shutil.copytree(src, dst, dirs_exist_ok=True)\<close> on the source directory (as listed when the
  call starts) and the entry found at the destination.  The destination directory is created
  unless it exists; every entry of the source is copied in turn, a subdirectory by a recursive
  call and a file by \<^verbatim>\<open>copy2\<close>; the errors of the entries are collected, not raised, until the
  directory is done; last the directory's mode is copied.  The result is the exception raised, if
  any, and the entry at the destination afterwards.  The source tree and the destination tree are
  taken to be disjoint.
\<close>

fun copytree_node :: "nat \<Rightarrow> string \<Rightarrow> string \<Rightarrow> node \<Rightarrow> node option \<Rightarrow> exn option \<times> node option"
  and copytree_entries :: "nat \<Rightarrow> string \<Rightarrow> string \<Rightarrow> (string \<times> node) list \<Rightarrow> (string \<times> node) list
         \<Rightarrow> (string \<times> string \<times> oserror) list \<times> (string \<times> node) list" where
  "copytree_node clock src dst (File c m r) slot = (Some (OSError NotADirectoryError), slot)"
| "copytree_node clock src dst (Dir r es) slot =
     (case slot of
        Some (File c' m' r') \<Rightarrow> (Some (OSError FileExistsError), slot)
      | _ \<Rightarrow>
          (let d = (case slot of Some (Dir rd ed) \<Rightarrow> Dir rd ed | _ \<Rightarrow> Dir False [])
           in case copytree_entries clock src dst es (entries d) of
                (errors, ed') \<Rightarrow>
                  (if errors \<noteq> [] then Some (ShutilError errors) else None,
                   Some (copystat (Dir r es) (Dir (readonly d) ed')))))"
| "copytree_entries clock src dst [] ed = ([], ed)"
| "copytree_entries clock src dst ((x, File c m r) # rest) ed =
     (case copy2_node clock (File c m r) x (map_of ed x) of
        Inl e \<Rightarrow>
          (case copytree_entries clock src dst rest ed of
             (errors, ed') \<Rightarrow> ((os_path_join src x, os_path_join dst x, e) # errors, ed'))
      | Inr n \<Rightarrow> copytree_entries clock src dst rest (AList.update x n ed))"
| "copytree_entries clock src dst ((x, Dir r es) # rest) ed =
     (case copytree_node clock (os_path_join src x) (os_path_join dst x) (Dir r es) (map_of ed x) of
        (ex, slot') \<Rightarrow>
          (let ed1 = (case slot' of None \<Rightarrow> ed | Some n \<Rightarrow> AList.update x n ed);
               errors1 =
                 (case ex of
                    None \<Rightarrow> []
                  | Some (ShutilError errs) \<Rightarrow> errs
                  | Some (OSError e) \<Rightarrow> [(os_path_join src x, os_path_join dst x, e)]
                  | Some _ \<Rightarrow> [])
           in case copytree_entries clock src dst rest ed1 of
                (errors, ed') \<Rightarrow> (errors1 @ errors, ed')))"

section \<open>The world of a run\<close>

text \<open>
  What a run does is recorded as a trace of events, in order: every message handed to
  \<^verbatim>\<open>logging\<close>, every external command, every HTTP request and every library call that touches
  the file system.
\<close>

datatype level = DEBUG | INFO | WARNING | ERROR

datatype message =
    Destination_not_specified string
  | Copying string string
  | Deleting string
  | Path_does_not_exist string
  | Extracting string string
  | Unsupported_file_format string
  | Error_extracting string exn
  | Error_during_task "string option" string exn
  | Unknown_action "string option" string
  | CMDDBG "string list" string
  | CMDERR "string list" string
  | Error_running_command "string list"
  | Cloning_sources "string option"
  | Missing_url_or_destination_for_a_repository
  | Cloning_into string string
  | Repository_already_exists string
  | Checking_out_commit string string
  | Initializing_submodules string
  | Missing_url_or_destination_for_download
  | Downloading string string
  | Project_key_not_found

datatype proc_result = Not_started exn | Completed int string string

datatype http_result = Request_failed exn | Response nat "string list" "exn option"

datatype archive = Zip | Tar

datatype event =
    Log level message
  | Makedirs string
  | Copytree string string
  | Copy2 string string
  | Rmtree string
  | Remove string
  | Open_wb string
  | Extractall archive string string
  | Subprocess_run "string list" proc_result
  | Requests_get string

record world =
  fs :: node
  cwd :: "string list"
  clock :: nat
  trace :: "event list"

text \<open>
  The external collaborators: the version-control client run as a process (its result and what it
  leaves on disk), the HTTP transport (a failed request, or a status with the chunks of the body
  and the error that interrupts the stream, if any) and the archive libraries (what extraction
  raises, if anything, and what it leaves on disk).  They are parameters of the model.
\<close>

record env =
  subprocess_run :: "string list \<Rightarrow> node \<Rightarrow> proc_result \<times> node"
  requests_get :: "string \<Rightarrow> http_result"
  extractall :: "archive \<Rightarrow> string \<Rightarrow> string \<Rightarrow> string list \<Rightarrow> node \<Rightarrow> exn option \<times> node"

text \<open>
  How a call ends: it returns, it raises an exception (every exception of the model is a subclass
  of \<^verbatim>\<open>Exception\<close>), or it ends the process through \<^verbatim>\<open>exit(code)\<close>.
\<close>

datatype outcome = Returned | Raised exn | Exited int

definition exits :: "outcome \<Rightarrow> bool" where
  "exits out = (case out of Exited c \<Rightarrow> True | _ \<Rightarrow> False)"

definition emit :: "event \<Rightarrow> world \<Rightarrow> world" where
  "emit ev w = w\<lparr>trace := trace w @ [ev]\<rparr>"

definition logging :: "level \<Rightarrow> message \<Rightarrow> world \<Rightarrow> outcome \<times> world" where
  "logging lv msg w = (Returned, emit (Log lv msg) w)"

text \<open>Sequencing: the second statement runs only when the first returns.\<close>

definition seq :: "(world \<Rightarrow> outcome \<times> world) \<Rightarrow> (world \<Rightarrow> outcome \<times> world) \<Rightarrow> world \<Rightarrow> outcome \<times> world" where
  "seq f g w = (case f w of (Returned, w') \<Rightarrow> g w' | (out, w') \<Rightarrow> (out, w'))"

text \<open>\<^verbatim>\<open>try: body except Exception as e: handler(e)\<close>; an exit is not an \<^verbatim>\<open>Exception\<close>.\<close>

definition try_except :: "(world \<Rightarrow> outcome \<times> world) \<Rightarrow> (exn \<Rightarrow> world \<Rightarrow> outcome \<times> world) \<Rightarrow> world \<Rightarrow> outcome \<times> world" where
  "try_except body handler w = (case body w of (Raised e, w') \<Rightarrow> handler e w' | (out, w') \<Rightarrow> (out, w'))"

text \<open>\<^verbatim>\<open>for x in xs: body(x)\<close>.\<close>

fun for_each :: "('a \<Rightarrow> world \<Rightarrow> outcome \<times> world) \<Rightarrow> 'a list \<Rightarrow> world \<Rightarrow> outcome \<times> world" where
  "for_each body [] w = (Returned, w)"
| "for_each body (x # xs) w =
     (case body x w of (Returned, w') \<Rightarrow> for_each body xs w' | (out, w') \<Rightarrow> (out, w'))"

subsection \<open>Library calls on the world\<close>

definition resolve :: "world \<Rightarrow> string \<Rightarrow> string list" where
  "resolve w p = (if startswith_slash p then components p else cwd w @ components p)"

text \<open>
  What \<^verbatim>\<open>os.stat\<close> finds at a path: nothing at the empty path, and nothing where a path that
  can only name a directory leads to a regular file.
\<close>

definition lookup :: "world \<Rightarrow> string \<Rightarrow> node option" where
  "lookup w p =
     (if p = [] then None
      else (case node_at (fs w) (resolve w p) of
              Some (File c m r) \<Rightarrow> if names_directory p then None else Some (File c m r)
            | other \<Rightarrow> other))"

definition os_path_isdir :: "world \<Rightarrow> string \<Rightarrow> bool" where
  "os_path_isdir w p = (case lookup w p of Some (Dir r es) \<Rightarrow> True | _ \<Rightarrow> False)"

definition os_path_isfile :: "world \<Rightarrow> string \<Rightarrow> bool" where
  "os_path_isfile w p = (case lookup w p of Some (File c m r) \<Rightarrow> True | _ \<Rightarrow> False)"

definition os_path_exists :: "world \<Rightarrow> string \<Rightarrow> bool" where
  "os_path_exists w p = (lookup w p \<noteq> None)"

definition os_makedirs :: "string \<Rightarrow> world \<Rightarrow> outcome \<times> world" where
  "os_makedirs p w =
     (let w1 = emit (Makedirs p) w
      in if p = [] then (Raised (OSError FileNotFoundError), w1)
         else (case mkdirs (fs w1) (resolve w1 p) of
                 Inl e \<Rightarrow> (Raised (OSError e), w1)
               | Inr t \<Rightarrow> (Returned, w1\<lparr>fs := t\<rparr>)))"

definition os_remove :: "string \<Rightarrow> world \<Rightarrow> outcome \<times> world" where
  "os_remove p w =
     (let w1 = emit (Remove p) w
      in if p = [] then (Raised (OSError FileNotFoundError), w1)
         else (case node_at (fs w1) (resolve w1 p) of
                 None \<Rightarrow> (Raised (OSError FileNotFoundError), w1)
               | Some (Dir r es) \<Rightarrow> (Raised (OSError IsADirectoryError), w1)
               | Some (File c m r) \<Rightarrow>
                   if names_directory p then (Raised (OSError NotADirectoryError), w1)
                   else (case os_unlink (File c m r) of
                           Some e \<Rightarrow> (Raised (OSError e), w1)
                         | None \<Rightarrow> (Returned, w1\<lparr>fs := put_at (fs w1) (resolve w1 p) None\<rparr>))))"

text \<open>
  \<^verbatim>\<open>shutil.rmtree(path, onerror=h)\<close>.  The bootstrapper calls it on directories only; the root
  of the file system can be emptied but not removed.
\<close>

definition shutil_rmtree :: "onerror \<Rightarrow> string \<Rightarrow> world \<Rightarrow> outcome \<times> world" where
  "shutil_rmtree h p w =
     (let w1 = emit (Rmtree p) w
      in (case lookup w1 p of
            None \<Rightarrow> (Raised (OSError FileNotFoundError), w1)
          | Some (File c m r) \<Rightarrow> (Raised (OSError NotADirectoryError), w1)
          | Some (Dir r es) \<Rightarrow>
              if resolve w1 p = [] then
                (case rmtree_entries h es of
                   (Some e, es') \<Rightarrow> (Raised (OSError e), w1\<lparr>fs := Dir r es'\<rparr>)
                 | (None, es') \<Rightarrow> (Raised (OSError DeviceBusy), w1\<lparr>fs := Dir r es'\<rparr>))
              else
                (case rmtree_unsafe h (Dir r es) of
                   (Some e, left) \<Rightarrow> (Raised (OSError e), w1\<lparr>fs := put_at (fs w1) (resolve w1 p) left\<rparr>)
                 | (None, left) \<Rightarrow> (Returned, w1\<lparr>fs := put_at (fs w1) (resolve w1 p) left\<rparr>))))"

text \<open>
  The entry a write to \<open>p\<close> would replace, or the error of opening \<open>p\<close> for writing that does not
  depend on that entry: the parent must be a directory, and a path that can only name a directory
  must lead to one.
\<close>

definition write_slot :: "world \<Rightarrow> string \<Rightarrow> oserror + node option" where
  "write_slot w p =
     (if p = [] then Inl FileNotFoundError
      else if resolve w p = [] then Inr (Some (fs w))
      else (case node_at (fs w) (butlast (resolve w p)) of
              None \<Rightarrow> Inl FileNotFoundError
            | Some (File c m r) \<Rightarrow> Inl NotADirectoryError
            | Some (Dir r es) \<Rightarrow>
                (case node_at (fs w) (resolve w p) of
                   Some (Dir r' es') \<Rightarrow> Inr (Some (Dir r' es'))
                 | other \<Rightarrow> if names_directory p then Inl IsADirectoryError else Inr other)))"

text \<open>\<^verbatim>\<open>with open(p, 'wb') as file: file.write(data)\<close>.\<close>

definition open_wb_write :: "string \<Rightarrow> string \<Rightarrow> world \<Rightarrow> outcome \<times> world" where
  "open_wb_write p data w =
     (let w1 = emit (Open_wb p) w
      in (case write_slot w1 p of
            Inl e \<Rightarrow> (Raised (OSError e), w1)
          | Inr slot \<Rightarrow>
              (case write_node (clock w1) data slot of
                 Inl e \<Rightarrow> (Raised (OSError e), w1)
               | Inr n \<Rightarrow> (Returned, w1\<lparr>fs := put_at (fs w1) (resolve w1 p) (Some n)\<rparr>))))"

definition shutil_copy2 :: "string \<Rightarrow> string \<Rightarrow> world \<Rightarrow> outcome \<times> world" where
  "shutil_copy2 src dst w =
     (let w1 = emit (Copy2 src dst) w
      in (case lookup w1 src of
            None \<Rightarrow> (Raised (OSError FileNotFoundError), w1)
          | Some (Dir r es) \<Rightarrow> (Raised (OSError IsADirectoryError), w1)
          | Some (File c m r) \<Rightarrow>
              (case write_slot w1 dst of
                 Inl e \<Rightarrow> (Raised (OSError e), w1)
               | Inr slot \<Rightarrow>
                   if resolve w1 src =
                        (case slot of
                           Some (Dir rd ed) \<Rightarrow> resolve w1 dst @ [os_path_basename src]
                         | _ \<Rightarrow> resolve w1 dst)
                   then (Raised SameFileError, w1)
                   else (case copy2_node (clock w1) (File c m r) (os_path_basename src) slot of
                           Inl e \<Rightarrow> (Raised (OSError e), w1)
                         | Inr n \<Rightarrow> (Returned, w1\<lparr>fs := put_at (fs w1) (resolve w1 dst) (Some n)\<rparr>)))))"

definition shutil_copytree :: "string \<Rightarrow> string \<Rightarrow> world \<Rightarrow> outcome \<times> world" where
  "shutil_copytree src dst w =
     (let w1 = emit (Copytree src dst) w
      in (case lookup w1 src of
            None \<Rightarrow> (Raised (OSError FileNotFoundError), w1)
          | Some (File c m r) \<Rightarrow> (Raised (OSError NotADirectoryError), w1)
          | Some (Dir r es) \<Rightarrow>
              if dst = [] then (Raised (OSError FileNotFoundError), w1)
              else (case mkdirs (fs w1) (resolve w1 dst) of
                      Inl e \<Rightarrow> (Raised (OSError e), w1)
                    | Inr t \<Rightarrow>
                        (case copytree_node (clock w1) src dst (Dir r es) (node_at t (resolve w1 dst)) of
                           (ex, left) \<Rightarrow>
                             (case ex of None \<Rightarrow> Returned | Some e \<Rightarrow> Raised e,
                              w1\<lparr>fs := put_at t (resolve w1 dst) left\<rparr>)))))"

section \<open>The manifest\<close>

text \<open>
  The entries of the parsed manifest.  A key that the source reads with \<^verbatim>\<open>get\<close> is an optional
  field (\<open>None\<close>: the key is absent); strings are the values the manifest format gives the keys.
\<close>

record task =
  task_action :: "string option"
  task_source :: "string option"
  task_destination :: "string option"

record entry =
  entry_name :: "string option"
  entry_repo :: "string option"
  entry_url :: "string option"
  entry_branch :: "string option"
  entry_commit :: "string option"
  entry_submodules :: "string option"
  entry_destination :: "string option"
  entry_tasks :: "task list"

record manifest =
  project :: "string option"
  repositories :: "entry list"
  artifacts :: "entry list"

text \<open>Python's truth value of an optional string: \<^verbatim>\<open>None\<close> and \<^verbatim>\<open>''\<close> are false.\<close>

definition truthy :: "string option \<Rightarrow> bool" where
  "truthy v = (case v of None \<Rightarrow> False | Some s \<Rightarrow> s \<noteq> [])"

definition get_default :: "string option \<Rightarrow> string \<Rightarrow> string" where
  "get_default v d = (case v of None \<Rightarrow> d | Some s \<Rightarrow> s)"

section \<open>TaskExecutor\<close>

text \<open>\<^verbatim>\<open>TaskExecutor._copy(source, destination)\<close>.\<close>

definition TaskExecutor_copy :: "entry \<Rightarrow> string \<Rightarrow> string option \<Rightarrow> world \<Rightarrow> outcome \<times> world" where
  "TaskExecutor_copy repo source destination w =
     (if \<not> truthy destination then
        logging ERROR (Destination_not_specified (get_default (entry_name repo) ''unknown'')) w
      else
        seq (logging INFO (Copying source (the destination)))
          (\<lambda>w1. if os_path_isdir w1 source then shutil_copytree source (the destination) w1
                else seq (os_makedirs (os_path_dirname (the destination)))
                       (shutil_copy2 source (the destination)) w1) w)"

text \<open>\<^verbatim>\<open>TaskExecutor._delete(source, destination=None)\<close>.\<close>

definition TaskExecutor_delete :: "string \<Rightarrow> string option \<Rightarrow> world \<Rightarrow> outcome \<times> world" where
  "TaskExecutor_delete source destination w =
     seq (logging INFO (Deleting source))
       (\<lambda>w1. if os_path_isdir w1 source then shutil_rmtree remove_readonly source w1
             else if os_path_isfile w1 source then os_remove source w1
             else logging WARNING (Path_does_not_exist source) w1) w"

text \<open>
  \<^verbatim>\<open>TaskExecutor._expand(source, destination)\<close>; \<^verbatim>\<open>os.makedirs(None)\<close> raises
  \<^verbatim>\<open>TypeError\<close>.
\<close>

definition extract_archive :: "env \<Rightarrow> archive \<Rightarrow> string \<Rightarrow> string \<Rightarrow> world \<Rightarrow> outcome \<times> world" where
  "extract_archive E kind source destination w =
     (let w1 = emit (Extractall kind source destination) w
      in (case extractall E kind source destination (cwd w1) (fs w1) of
            (None, t) \<Rightarrow> (Returned, w1\<lparr>fs := t\<rparr>)
          | (Some e, t) \<Rightarrow> (Raised e, w1\<lparr>fs := t\<rparr>)))"

definition TaskExecutor_expand :: "env \<Rightarrow> string \<Rightarrow> string option \<Rightarrow> world \<Rightarrow> outcome \<times> world" where
  "TaskExecutor_expand E source destination w =
     (case destination of
        None \<Rightarrow> (Raised TypeError, w)
      | Some d \<Rightarrow>
          seq (os_makedirs d)
            (seq (logging INFO (Extracting source d))
               (try_except
                  (\<lambda>w1. if endswith source ''.zip'' then extract_archive E Zip source d w1
                        else if endswith source ''.tar.gz'' \<or> endswith source ''.tgz'' \<or> endswith source ''.tar''
                        then extract_archive E Tar source d w1
                        else logging WARNING (Unsupported_file_format source) w1)
                  (\<lambda>e. logging ERROR (Error_extracting source e)))) w)"

text \<open>
  The values of \<^verbatim>\<open>action_map.get(action, 'unknown')\<close>: one of the three bound methods, or the
  default, which is the string \<^verbatim>\<open>'unknown'\<close>.
\<close>

datatype pyobject = Copy_method | Delete_method | Expand_method | Str string

definition action_map_get :: "string option \<Rightarrow> pyobject \<Rightarrow> pyobject" where
  "action_map_get action dflt =
     (if action = Some ''copy'' then Copy_method
      else if action = Some ''delete'' then Delete_method
      else if action = Some ''expand'' then Expand_method
      else dflt)"

text \<open>\<^verbatim>\<open>if func:\<close> a method is true, a string is true unless empty.\<close>

definition truth :: "pyobject \<Rightarrow> bool" where
  "truth v = (case v of Str s \<Rightarrow> s \<noteq> [] | _ \<Rightarrow> True)"

text \<open>\<^verbatim>\<open>func(source, destination)\<close>; calling a string raises \<^verbatim>\<open>TypeError\<close>.\<close>

definition call :: "env \<Rightarrow> entry \<Rightarrow> pyobject \<Rightarrow> string \<Rightarrow> string option \<Rightarrow> world \<Rightarrow> outcome \<times> world" where
  "call E repo func source destination w =
     (case func of
        Copy_method \<Rightarrow> TaskExecutor_copy repo source destination w
      | Delete_method \<Rightarrow> TaskExecutor_delete source destination w
      | Expand_method \<Rightarrow> TaskExecutor_expand E source destination w
      | Str s \<Rightarrow> (Raised TypeError, w))"

text \<open>The body of the loop of \<^verbatim>\<open>TaskExecutor.execute_tasks\<close>, for one task.\<close>

definition execute_task :: "env \<Rightarrow> entry \<Rightarrow> string \<Rightarrow> task \<Rightarrow> world \<Rightarrow> outcome \<times> world" where
  "execute_task E repo base_dir t w =
     (let action = task_action t;
          func = action_map_get action (Str ''unknown'')
      in if truth func then
           (let source = os_path_join base_dir (get_default (task_source t) []);
                destination =
                  (case task_destination t of
                     None \<Rightarrow> None
                   | Some d \<Rightarrow> Some (os_path_join base_dir d))
            in try_except (call E repo func source destination)
                 (\<lambda>e. logging ERROR (Error_during_task action source e)) w)
         else logging WARNING (Unknown_action action (get_default (entry_name repo) ''unknown'')) w)"

definition execute_tasks :: "env \<Rightarrow> entry \<Rightarrow> string \<Rightarrow> world \<Rightarrow> outcome \<times> world" where
  "execute_tasks E repo base_dir w = for_each (execute_task E repo base_dir) (entry_tasks repo) w"

section \<open>RepoManager\<close>

text \<open>
  \<^verbatim>\<open>RepoManager.run_command(command)\<close>: \<^verbatim>\<open>subprocess.run(..., check=True)\<close> raises
  \<^verbatim>\<open>CalledProcessError\<close> exactly for a non-zero exit status, and the handler exits with code 1.
\<close>

definition run_command :: "env \<Rightarrow> string list \<Rightarrow> world \<Rightarrow> outcome \<times> world" where
  "run_command E command w =
     (case subprocess_run E command (fs w) of
        (Not_started e, t) \<Rightarrow> (Raised e, emit (Subprocess_run command (Not_started e)) (w\<lparr>fs := t\<rparr>))
      | (Completed rc out err, t) \<Rightarrow>
          (let w1 = emit (Subprocess_run command (Completed rc out err)) (w\<lparr>fs := t\<rparr>)
           in if rc \<noteq> 0 then
                seq (logging ERROR (Error_running_command command)) (\<lambda>w2. (Exited 1, w2)) w1
              else
                seq (\<lambda>w2. if out \<noteq> [] then logging DEBUG (CMDDBG command out) w2 else (Returned, w2))
                  (\<lambda>w2. if err \<noteq> [] then logging DEBUG (CMDERR command err) w2 else (Returned, w2)) w1))"

text \<open>\<^verbatim>\<open>RepoManager.clone_repository()\<close>; \<^verbatim>\<open>self.repo['destination']\<close> raises \<^verbatim>\<open>KeyError\<close>.\<close>

definition clone_repository :: "env \<Rightarrow> entry \<Rightarrow> string \<Rightarrow> world \<Rightarrow> outcome \<times> world" where
  "clone_repository E repo base_dir w =
     (let name = entry_repo repo;
          url = entry_url repo;
          branch = get_default (entry_branch repo) ''main'';
          commit = entry_commit repo;
          submodules = entry_submodules repo
      in (case entry_destination repo of
            None \<Rightarrow> (Raised (KeyError ''destination''), w)
          | Some d \<Rightarrow>
              (let destination = os_path_join base_dir d
               in seq (logging INFO (Cloning_sources name))
                    (\<lambda>w1. if \<not> truthy url \<or> destination = [] then
                            logging ERROR Missing_url_or_destination_for_a_repository w1
                          else
                            seq (os_makedirs destination)
                             (seq (\<lambda>w2. if \<not> os_path_exists w2 (os_path_join destination ''.git'') then
                                          seq (logging INFO (Cloning_into (the url) destination))
                                            (run_command E [''git'', ''clone'', ''--branch'', branch,
                                               ''--single-branch'', the url, destination]) w2
                                        else
                                          seq (logging INFO (Repository_already_exists destination))
                                            (run_command E [''git'', ''-C'', destination, ''pull'']) w2)
                             (seq (\<lambda>w3. if truthy commit then
                                          seq (logging INFO (Checking_out_commit (the commit) destination))
                                            (run_command E [''git'', ''-C'', destination, ''checkout'', the commit]) w3
                                        else (Returned, w3))
                             (seq (\<lambda>w4. if truthy submodules then
                                          (let submodule_command =
                                                 [''git'', ''-C'', destination, ''submodule'', ''update'', ''--init'']
                                                 @ (if submodules = Some ''recursive'' then [''--recursive''] else [])
                                           in seq (logging INFO (Initializing_submodules destination))
                                                (run_command E submodule_command) w4)
                                        else (Returned, w4))
                                (execute_tasks E repo base_dir)))) w1) w)))"

section \<open>ArtifactManager\<close>

text \<open>
  \<^verbatim>\<open>ArtifactManager.download()\<close>: the request, \<^verbatim>\<open>raise_for_status()\<close> (an error for a status
  from 400 to 599), then the body written to the destination chunk by chunk.
\<close>

definition http_download :: "env \<Rightarrow> string \<Rightarrow> string \<Rightarrow> world \<Rightarrow> outcome \<times> world" where
  "http_download E url destination w =
     (let w1 = emit (Requests_get url) w
      in (case requests_get E url of
            Request_failed e \<Rightarrow> (Raised e, w1)
          | Response status chunks interrupted \<Rightarrow>
              if 400 \<le> status \<and> status < 600 then (Raised (HTTPError status), w1)
              else seq (open_wb_write destination (concat chunks))
                     (\<lambda>w2. (case interrupted of None \<Rightarrow> Returned | Some e \<Rightarrow> Raised e, w2)) w1))"

definition download :: "env \<Rightarrow> entry \<Rightarrow> string \<Rightarrow> world \<Rightarrow> outcome \<times> world" where
  "download E artifact base_dir w =
     (let url = entry_url artifact;
          destination = os_path_join base_dir (get_default (entry_destination artifact) [])
      in if \<not> truthy url \<or> destination = [] then
           logging ERROR Missing_url_or_destination_for_download w
         else
           seq (os_makedirs (os_path_dirname destination))
             (seq (logging INFO (Downloading (the url) destination))
                (seq (http_download E (the url) destination)
                   (execute_tasks E artifact base_dir))) w)"

section \<open>BootstrapManager\<close>

text \<open>\<^verbatim>\<open>BootstrapManager.run()\<close>, from the loaded manifest on.\<close>

definition run :: "env \<Rightarrow> manifest \<Rightarrow> world \<Rightarrow> outcome \<times> world" where
  "run E config w =
     (let project_dir = project config
      in if \<not> truthy project_dir then
           seq (logging ERROR Project_key_not_found) (\<lambda>w1. (Exited 1, w1)) w
         else
           seq (os_makedirs (the project_dir))
             (seq (for_each (\<lambda>repo. clone_repository E repo (the project_dir)) (repositories config))
                (for_each (\<lambda>artifact. download E artifact (the project_dir)) (artifacts config))) w)"

section \<open>A small world\<close>

text \<open>
  A concrete environment, file system and entry on which the theorems below are instantiated: the
  version-control client succeeds silently, the transport answers 200, the archive libraries
  extract nothing.  The working directory \<^verbatim>\<open>/home\<close> holds the project root \<^verbatim>\<open>out\<close>.
\<close>

definition example_env :: env where
  "example_env =
     \<lparr>subprocess_run = (\<lambda>command t. (Completed 0 [] [], t)),
      requests_get = (\<lambda>url. Response 200 [''data''] None),
      extractall = (\<lambda>kind source destination d t. (None, t))\<rparr>"

definition example_fs :: node where
  "example_fs =
     Dir False
       [(''home'', Dir False
          [(''out'', Dir False
             [(''f.txt'', File ''f'' 1 False),
              (''locked.txt'', File ''l'' 2 True),
              (''A'', Dir False [(''x.txt'', File ''x'' 3 False), (''y.txt'', File ''new'' 4 False)]),
              (''B'', Dir False [(''y.txt'', File ''old'' 5 False), (''z.txt'', File ''z'' 6 False)]),
              (''lib'', Dir False [(''.git'', Dir False [(''obj'', File ''o'' 7 True)])])])])]"

definition example_world :: world where
  "example_world = \<lparr>fs = example_fs, cwd = [''home''], clock = 9, trace = []\<rparr>"

definition example_entry :: entry where
  "example_entry =
     \<lparr>entry_name = None, entry_repo = Some ''lib'', entry_url = Some ''https://example.com/lib.git'',
      entry_branch = None, entry_commit = None, entry_submodules = None,
      entry_destination = Some ''lib'', entry_tasks = []\<rparr>"

section \<open>Traces\<close>

text \<open>
  Properties of a run are stated on the events it adds to the trace.  The commands of a stretch of
  trace are the argument lists of its external commands, in order; a command has failed when its
  process ended with a status other than zero.
\<close>

fun commands :: "event list \<Rightarrow> string list list" where
  "commands [] = []"
| "commands (ev # evs) = (case ev of Subprocess_run c r \<Rightarrow> c # commands evs | _ \<Rightarrow> commands evs)"

definition failed :: "event \<Rightarrow> bool" where
  "failed ev = (case ev of Subprocess_run c (Completed rc out err) \<Rightarrow> rc \<noteq> 0 | _ \<Rightarrow> False)"

text \<open>
  \<open>extends P f\<close>: whatever the world, \<open>f\<close> only appends to the trace, and its outcome and the events
  it appends satisfy \<open>P\<close>.
\<close>

definition extends :: "(outcome \<Rightarrow> event list \<Rightarrow> bool) \<Rightarrow> (world \<Rightarrow> outcome \<times> world) \<Rightarrow> bool" where
  "extends P f = (\<forall>w. \<exists>new. trace (snd (f w)) = trace w @ new \<and> P (fst (f w)) new)"

text \<open>No external command and no exit.\<close>

definition quiet :: "outcome \<Rightarrow> event list \<Rightarrow> bool" where
  "quiet out new = (commands new = [] \<and> \<not> exits out)"

text \<open>No failed command.\<close>

definition clean :: "event list \<Rightarrow> bool" where
  "clean tr = list_all (\<lambda>ev. \<not> failed ev) tr"

text \<open>
  Either no command has failed, or the first failed command is followed by its error message, by
  nothing else, and by the exit with status 1.
\<close>

definition fatal :: "outcome \<Rightarrow> event list \<Rightarrow> bool" where
  "fatal out new =
     (clean new \<or>
      (\<exists>pre c rc out' err.
         rc \<noteq> 0 \<and> clean pre \<and> out = Exited 1 \<and>
         new = pre @ [Subprocess_run c (Completed rc out' err), Log ERROR (Error_running_command c)]))"

text \<open>An environment whose version-control client always fails, and a manifest for it.\<close>

definition failing_env :: env where
  "failing_env =
     \<lparr>subprocess_run = (\<lambda>command t. (Completed 128 [] ''fatal: repository not found'', t)),
      requests_get = (\<lambda>url. Response 200 [''data''] None),
      extractall = (\<lambda>kind source destination d t. (None, t))\<rparr>"

definition example_manifest :: manifest where
  "example_manifest =
     \<lparr>project = Some ''out'',
      repositories = [example_entry\<lparr>entry_destination := Some ''new''\<rparr>, example_entry],
      artifacts = [example_entry\<lparr>entry_destination := Some ''a.bin''\<rparr>]\<rparr>"

text \<open>
  The commands that were run: exactly \<open>cs\<close>; exactly \<open>cs\<close> with a normal return; a prefix of \<open>cs\<close>
  of at least \<open>n\<close> commands.
\<close>

definition ran :: "string list list \<Rightarrow> outcome \<Rightarrow> event list \<Rightarrow> bool" where
  "ran cs out new = (commands new = cs)"

definition ran_ok :: "string list list \<Rightarrow> outcome \<Rightarrow> event list \<Rightarrow> bool" where
  "ran_ok cs out new = (commands new = cs \<and> out = Returned)"

definition ran_some :: "nat \<Rightarrow> string list list \<Rightarrow> outcome \<Rightarrow> event list \<Rightarrow> bool" where
  "ran_some n cs out new = (\<exists>k. n \<le> k \<and> commands new = take k cs)"

text \<open>The command ends with status zero, whatever the file system.\<close>

definition succeeds :: "env \<Rightarrow> string list \<Rightarrow> bool" where
  "succeeds E command = (\<forall>t. \<exists>out err t'. subprocess_run E command t = (Completed 0 out err, t'))"

text \<open>
  The commands that follow the clone or the update of an entry, as \<^verbatim>\<open>clone_repository\<close> builds
  them.
\<close>

definition later_commands :: "entry \<Rightarrow> string \<Rightarrow> string list list" where
  "later_commands repo destination =
     (if truthy (entry_commit repo)
      then [[''git'', ''-C'', destination, ''checkout'', the (entry_commit repo)]] else [])
     @ (if truthy (entry_submodules repo)
        then [[''git'', ''-C'', destination, ''submodule'', ''update'', ''--init'']
              @ (if entry_submodules repo = Some ''recursive'' then [''--recursive''] else [])]
        else [])"

text \<open>
  The three conditional statements of \<^verbatim>\<open>clone_repository\<close> after \<^verbatim>\<open>os.makedirs\<close>, each on its
  own: their sequence, followed by the tasks, is the rest of the method.
\<close>

definition clone_or_pull :: "env \<Rightarrow> entry \<Rightarrow> string \<Rightarrow> world \<Rightarrow> outcome \<times> world" where
  "clone_or_pull E repo destination w2 =
     (if \<not> os_path_exists w2 (os_path_join destination ''.git'') then
        seq (logging INFO (Cloning_into (the (entry_url repo)) destination))
          (run_command E [''git'', ''clone'', ''--branch'', get_default (entry_branch repo) ''main'',
             ''--single-branch'', the (entry_url repo), destination]) w2
      else
        seq (logging INFO (Repository_already_exists destination))
          (run_command E [''git'', ''-C'', destination, ''pull'']) w2)"

definition checkout_commit :: "env \<Rightarrow> entry \<Rightarrow> string \<Rightarrow> world \<Rightarrow> outcome \<times> world" where
  "checkout_commit E repo destination w3 =
     (if truthy (entry_commit repo) then
        seq (logging INFO (Checking_out_commit (the (entry_commit repo)) destination))
          (run_command E [''git'', ''-C'', destination, ''checkout'', the (entry_commit repo)]) w3
      else (Returned, w3))"

definition update_submodules :: "env \<Rightarrow> entry \<Rightarrow> string \<Rightarrow> world \<Rightarrow> outcome \<times> world" where
  "update_submodules E repo destination w4 =
     (if truthy (entry_submodules repo) then
        (let submodule_command =
               [''git'', ''-C'', destination, ''submodule'', ''update'', ''--init'']
               @ (if entry_submodules repo = Some ''recursive'' then [''--recursive''] else [])
         in seq (logging INFO (Initializing_submodules destination))
              (run_command E submodule_command) w4)
      else (Returned, w4))"

text \<open>The argument lists of the commands, as the source writes them.\<close>

definition pull_command :: "string \<Rightarrow> string list" where
  "pull_command destination = [''git'', ''-C'', destination, ''pull'']"

definition clone_command :: "entry \<Rightarrow> string \<Rightarrow> string list" where
  "clone_command repo destination =
     [''git'', ''clone'', ''--branch'', get_default (entry_branch repo) ''main'', ''--single-branch'',
      the (entry_url repo), destination]"

definition checkout_commands :: "entry \<Rightarrow> string \<Rightarrow> string list list" where
  "checkout_commands repo destination =
     (if truthy (entry_commit repo)
      then [[''git'', ''-C'', destination, ''checkout'', the (entry_commit repo)]] else [])"

definition submodule_commands :: "entry \<Rightarrow> string \<Rightarrow> string list list" where
  "submodule_commands repo destination =
     (if truthy (entry_submodules repo)
      then [[''git'', ''-C'', destination, ''submodule'', ''update'', ''--init'']
            @ (if entry_submodules repo = Some ''recursive'' then [''--recursive''] else [])]
      else [])"

text \<open>
  The submodule mode in the words of the specification: none, non-recursive or recursive; the
  value \<^verbatim>\<open>recursive\<close> selects the recursive mode, any other value that is true the non-recursive
  one.  A command is a submodule update when it has the shape
  \<^verbatim>\<open>git -C <destination> submodule update --init ...\<close>.
\<close>

datatype submodule_mode = Mode_none | Mode_non_recursive | Mode_recursive

definition submodule_mode :: "string option \<Rightarrow> submodule_mode" where
  "submodule_mode v =
     (if \<not> truthy v then Mode_none
      else if v = Some ''recursive'' then Mode_recursive
      else Mode_non_recursive)"

definition is_submodule_update :: "string list \<Rightarrow> bool" where
  "is_submodule_update c =
     (take 2 c = [''git'', ''-C''] \<and> take 3 (drop 3 c) = [''submodule'', ''update'', ''--init''])"

text \<open>
  The paths that an event carries, if it is an event of a task: the source and, where there is
  one, the destination.  \<open>on_paths s d\<close> holds of an event that carries no paths or the paths \<open>s\<close>
  and \<open>d\<close>; \<open>joined_to root ts\<close> holds of an event whose paths are those of one of the tasks \<open>ts\<close>
  joined to \<open>root\<close>, an absent source counting as the empty string.
\<close>

definition task_paths :: "event \<Rightarrow> (string \<times> string option) option" where
  "task_paths ev =
     (case ev of
        Log lv msg \<Rightarrow>
          (case msg of
             Copying s d \<Rightarrow> Some (s, Some d)
           | Deleting s \<Rightarrow> Some (s, None)
           | Extracting s d \<Rightarrow> Some (s, Some d)
           | Error_during_task a s e \<Rightarrow> Some (s, None)
           | _ \<Rightarrow> None)
      | Copytree s d \<Rightarrow> Some (s, Some d)
      | Copy2 s d \<Rightarrow> Some (s, Some d)
      | Rmtree s \<Rightarrow> Some (s, None)
      | Remove s \<Rightarrow> Some (s, None)
      | Extractall kind s d \<Rightarrow> Some (s, Some d)
      | _ \<Rightarrow> None)"

definition on_paths :: "string \<Rightarrow> string option \<Rightarrow> event \<Rightarrow> bool" where
  "on_paths s d ev =
     (case task_paths ev of None \<Rightarrow> True | Some (s', d') \<Rightarrow> s' = s \<and> (d' = None \<or> d' = d))"

definition joined_to :: "string \<Rightarrow> task list \<Rightarrow> event \<Rightarrow> bool" where
  "joined_to root ts ev =
     (task_paths ev = None \<or>
      list_ex (\<lambda>t. on_paths (os_path_join root (get_default (task_source t) []))
                      (map_option (os_path_join root) (task_destination t)) ev) ts)"

text \<open>Every new event satisfies \<open>Q\<close>.\<close>

definition only :: "(event \<Rightarrow> bool) \<Rightarrow> outcome \<Rightarrow> event list \<Rightarrow> bool" where
  "only Q out new = list_all Q new"


section \<open>Merging directories\<close>






section \<open>Lemmas on paths\<close>

lemma split_slash_nonempty: "split_slash p \<noteq> []"
  by (induction p) (auto split: list.splits)

lemma split_slash_append:
  "split_slash (a @ CHR ''/'' # b) = split_slash a @ split_slash b"
  by (induction a) (auto split: list.splits simp: split_slash_nonempty)

lemma components_append:
  "components (a @ CHR ''/'' # b) = components a @ components b"
  by (simp add: components_def split_slash_append)

lemma components_Nil [simp]: "components [] = []"
  by (simp add: components_def proper_name_def)

lemma endswith_slash_iff: "endswith a ''/'' \<longleftrightarrow> (\<exists>a'. a = a' @ ''/'')"
proof
  assume "endswith a ''/''"
  then have "1 \<le> length a" "drop (length a - 1) a = ''/''" by (auto simp: endswith_def)
  then have "a = take (length a - 1) a @ ''/''" by (metis append_take_drop_id)
  then show "\<exists>a'. a = a' @ ''/''" ..
next
  assume "\<exists>a'. a = a' @ ''/''"
  then show "endswith a ''/''" by (auto simp: endswith_def)
qed

lemma components_snoc_slash [simp]: "components (a @ ''/'') = components a"
  using components_append [of a "[]"] by simp

lemma components_join:
  "\<not> startswith_slash b \<Longrightarrow> components (os_path_join a b) = components a @ components b"
  by (auto simp: os_path_join_def endswith_slash_iff components_append)

lemma startswith_slash_append: "a \<noteq> [] \<Longrightarrow> startswith_slash (a @ b) = startswith_slash a"
  by (cases a) (auto simp: startswith_slash_def)

lemma startswith_slash_join:
  "\<not> startswith_slash b \<Longrightarrow> a \<noteq> [] \<Longrightarrow> startswith_slash (os_path_join a b) = startswith_slash a"
  by (auto simp: os_path_join_def startswith_slash_append)

lemma join_nonempty: "a \<noteq> [] \<Longrightarrow> os_path_join a b \<noteq> []"
  by (auto simp: os_path_join_def startswith_slash_def split: list.splits)

lemma last_split_slash_append:
  "last (split_slash (a @ CHR ''/'' # b)) = last (split_slash b)"
  by (simp add: split_slash_append split_slash_nonempty)

lemma names_directory_join_Nil: "a \<noteq> [] \<Longrightarrow> names_directory (os_path_join a [])"
  using last_split_slash_append [of _ "[]"]
  by (auto simp: os_path_join_def names_directory_def proper_name_def startswith_slash_def endswith_slash_iff)

lemma head_basename: "path_head p @ os_path_basename p = p"
proof -
  have "rev (takeWhile (\<lambda>c. c \<noteq> CHR ''/'') (rev p) @ dropWhile (\<lambda>c. c \<noteq> CHR ''/'') (rev p)) = p"
    by simp
  then show ?thesis
    unfolding path_head_def os_path_basename_def rev_append .
qed

lemma basename_no_slash: "CHR ''/'' \<notin> set (os_path_basename p)"
  by (auto simp: os_path_basename_def dest: set_takeWhileD)

lemma path_head_cases: "path_head p = [] \<or> (\<exists>h. path_head p = h @ ''/'')"
proof (cases "dropWhile (\<lambda>c. c \<noteq> CHR ''/'') (rev p)")
  case Nil
  then show ?thesis by (simp add: path_head_def)
next
  case (Cons y ys)
  then have "dropWhile (\<lambda>c. c \<noteq> CHR ''/'') (rev p) \<noteq> []" by simp
  from hd_dropWhile [OF this] Cons have "y = CHR ''/''" by simp
  with Cons show ?thesis by (simp add: path_head_def)
qed

lemma split_slash_no_slash: "CHR ''/'' \<notin> set a \<Longrightarrow> split_slash a = [a]"
  by (induction a) auto

lemma last_split_slash: "last (split_slash p) = os_path_basename p"
proof -
  from path_head_cases [of p] show ?thesis
  proof
    assume "path_head p = []"
    with head_basename [of p] have "os_path_basename p = p" by simp
    with basename_no_slash [of p] show ?thesis by (simp add: split_slash_no_slash)
  next
    assume "\<exists>h. path_head p = h @ ''/''"
    then obtain h where h: "path_head p = h @ ''/''" ..
    with head_basename [of p] have "p = h @ CHR ''/'' # os_path_basename p" by simp
    then have "last (split_slash p) = last (split_slash (os_path_basename p))"
      using last_split_slash_append [of h "os_path_basename p"] by simp
    with basename_no_slash [of p] show ?thesis by (simp add: split_slash_no_slash)
  qed
qed

lemma names_directory_basename: "names_directory p = (\<not> proper_name (os_path_basename p))"
  by (simp add: names_directory_def last_split_slash)

lemma components_head_basename:
  "components p = components (path_head p) @ (if names_directory p then [] else [os_path_basename p])"
proof -
  from path_head_cases [of p] show ?thesis
  proof
    assume "path_head p = []"
    with head_basename [of p] have "os_path_basename p = p" by simp
    with basename_no_slash [of p] have "split_slash p = [os_path_basename p]"
      by (simp add: split_slash_no_slash)
    with \<open>path_head p = []\<close> show ?thesis
      by (simp add: components_def names_directory_basename proper_name_def)
  next
    assume "\<exists>h. path_head p = h @ ''/''"
    then obtain h where h: "path_head p = h @ ''/''" ..
    with head_basename [of p] have "p = h @ CHR ''/'' # os_path_basename p" by simp
    then have "components p = components h @ components (os_path_basename p)"
      using components_append [of h "os_path_basename p"] by simp
    moreover have "components (os_path_basename p) = (if names_directory p then [] else [os_path_basename p])"
      using basename_no_slash [of p]
      by (simp add: components_def split_slash_no_slash names_directory_basename)
    ultimately show ?thesis using h by simp
  qed
qed

lemma takeWhile_eq_replicate: "takeWhile (\<lambda>c. c = x) xs = replicate (length (takeWhile (\<lambda>c. c = x) xs)) x"
  by (induction xs) auto

lemma rstrip_slash_decomp: "\<exists>k. p = rstrip_slash p @ replicate k CHR ''/''"
proof -
  have "rev (takeWhile (\<lambda>c. c = CHR ''/'') (rev p) @ dropWhile (\<lambda>c. c = CHR ''/'') (rev p)) = p"
    by simp
  then have "rstrip_slash p @ rev (takeWhile (\<lambda>c. c = CHR ''/'') (rev p)) = p"
    unfolding rstrip_slash_def rev_append .
  then have "p = rstrip_slash p @ rev (replicate (length (takeWhile (\<lambda>c. c = CHR ''/'') (rev p))) CHR ''/'')"
    using takeWhile_eq_replicate [of "CHR ''/''" "rev p"] by simp
  then show ?thesis by (metis rev_replicate)
qed

lemma components_replicate_slash: "components (a @ replicate k CHR ''/'') = components a"
proof (induction k)
  case 0
  show ?case by simp
next
  case (Suc k)
  have "a @ replicate (Suc k) CHR ''/'' = (a @ replicate k CHR ''/'') @ ''/''"
    by (simp add: replicate_append_same)
  with Suc show ?case by (simp only: components_snoc_slash)
qed

lemma components_rstrip_slash: "components (rstrip_slash p) = components p"
  using rstrip_slash_decomp [of p] components_replicate_slash by metis

lemma startswith_slash_rstrip:
  "rstrip_slash p \<noteq> [] \<Longrightarrow> startswith_slash (rstrip_slash p) = startswith_slash p"
  using rstrip_slash_decomp [of p] startswith_slash_append by metis

lemma startswith_slash_head:
  "path_head p \<noteq> [] \<Longrightarrow> startswith_slash (path_head p) = startswith_slash p"
  using head_basename [of p] startswith_slash_append by metis

lemma dirname_nonempty: "os_path_dirname p \<noteq> [] \<longleftrightarrow> path_head p \<noteq> []"
  by (auto simp: os_path_dirname_def Let_def)

lemma components_dirname: "components (os_path_dirname p) = components (path_head p)"
  by (simp add: os_path_dirname_def Let_def components_rstrip_slash)

lemma startswith_slash_dirname:
  "os_path_dirname p \<noteq> [] \<Longrightarrow> startswith_slash (os_path_dirname p) = startswith_slash p"
  by (auto simp: os_path_dirname_def Let_def startswith_slash_rstrip startswith_slash_head)

lemma resolve_dirname:
  "os_path_dirname p \<noteq> [] \<Longrightarrow>
   resolve w (os_path_dirname p) = (if names_directory p then resolve w p else butlast (resolve w p))"
  using components_head_basename [of p]
  by (simp add: resolve_def startswith_slash_dirname components_dirname butlast_append)

lemma resolve_join:
  "\<not> startswith_slash b \<Longrightarrow> a \<noteq> [] \<Longrightarrow> resolve w (os_path_join a b) = resolve w a @ components b"
  by (simp add: resolve_def startswith_slash_join components_join)

lemma path_head_nonempty: "path_head p \<noteq> [] \<longleftrightarrow> CHR ''/'' \<in> set p"
  by (auto simp: path_head_def dropWhile_eq_Nil_conv)

lemma dirname_join_nonempty: "a \<noteq> [] \<Longrightarrow> os_path_dirname (os_path_join a b) \<noteq> []"
  by (cases b)
     (auto simp: dirname_nonempty path_head_nonempty os_path_join_def startswith_slash_def
        endswith_slash_iff)

lemma resolve_join_Nil: "a \<noteq> [] \<Longrightarrow> resolve w (os_path_join a []) = resolve w a"
  by (simp add: resolve_join startswith_slash_def)

lemma resolve_dirname_join_Nil:
  "a \<noteq> [] \<Longrightarrow> resolve w (os_path_dirname (os_path_join a [])) = resolve w a"
  by (simp add: resolve_dirname dirname_join_nonempty names_directory_join_Nil resolve_join_Nil)

section \<open>Lemmas on the file system\<close>


lemma node_at_parent:
  "node_at t p = Some n \<Longrightarrow> p \<noteq> [] \<Longrightarrow> \<exists>r es. node_at t (butlast p) = Some (Dir r es)"
  by (induction t p rule: node_at.induct) (auto split: option.splits)

lemma mkdirs_existing: "node_at t p = Some (Dir r es) \<Longrightarrow> mkdirs t p = Inr t"
  by (induction t p rule: mkdirs.induct) (auto split: option.splits simp: update_triv)

lemma mkdirs_fresh: "\<exists>d. mkdirs (Dir r []) p = Inr d"
proof (induction p arbitrary: r)
  case Nil
  show ?case by simp
next
  case (Cons x xs)
  from Cons [of False] obtain d where "mkdirs (Dir False []) xs = Inr d" ..
  then show ?case by simp
qed


lemma node_at_empty_dir: "q \<noteq> [] \<Longrightarrow> node_at (Dir r []) q = None"
  by (cases q) auto

lemma mkdirs_other:
  "mkdirs t p = Inr t' \<Longrightarrow> \<not> prefix q p \<Longrightarrow> node_at t' q = node_at t q"
proof (induction t p arbitrary: t' q rule: mkdirs.induct)
  case (4 r es x xs)
  then obtain y ys where q: "q = y # ys" by (cases q) auto
  show ?case
  proof (cases "y = x")
    case True
    with 4 q have "\<not> prefix ys xs" by simp
    then have "ys \<noteq> []" by auto
    with 4 q True show ?thesis
      by (auto split: option.splits sum.splits simp: update_conv' node_at_empty_dir)
  next
    case False
    with 4 q show ?thesis
      by (auto split: option.splits sum.splits simp: update_conv')
  qed
qed auto





lemma put_at_root [simp]: "put_at t [] (Some n) = n"
  by simp

section \<open>Lemmas on control flow\<close>

lemma seq_Returned [simp]: "f w = (Returned, w') \<Longrightarrow> seq f g w = g w'"
  by (simp add: seq_def)

lemma seq_Raised [simp]: "f w = (Raised e, w') \<Longrightarrow> seq f g w = (Raised e, w')"
  by (simp add: seq_def)

lemma seq_Exited [simp]: "f w = (Exited c, w') \<Longrightarrow> seq f g w = (Exited c, w')"
  by (simp add: seq_def)

lemma seq_logging [simp]: "seq (logging lv msg) g w = g (emit (Log lv msg) w)"
  by (simp add: seq_def logging_def)

lemma try_except_Raised [simp]: "body w = (Raised e, w') \<Longrightarrow> try_except body handler w = handler e w'"
  by (simp add: try_except_def)

lemma try_except_Returned [simp]: "body w = (Returned, w') \<Longrightarrow> try_except body handler w = (Returned, w')"
  by (simp add: try_except_def)

lemma emit_simps [simp]:
  "fs (emit ev w) = fs w" "cwd (emit ev w) = cwd w" "clock (emit ev w) = clock w"
  "trace (emit ev w) = trace w @ [ev]"
  by (simp_all add: emit_def)

lemma call_entry_tasks [simp]: "call E (repo\<lparr>entry_tasks := ts\<rparr>) = call E repo"
  by (intro ext) (simp add: call_def TaskExecutor_copy_def split: pyobject.splits)

lemma execute_task_entry_tasks [simp]:
  "execute_task E (repo\<lparr>entry_tasks := ts\<rparr>) = execute_task E repo"
  by (intro ext) (simp add: execute_task_def Let_def)

section \<open>Unknown actions\<close>

text \<open>
  Claim C2.  A task whose action is none of \<^verbatim>\<open>copy\<close>, \<^verbatim>\<open>delete\<close>, \<^verbatim>\<open>expand\<close> is looked up with
  the default \<^verbatim>\<open>'unknown'\<close>, a non-empty string, so the test \<^verbatim>\<open>if func:\<close> succeeds and the string
  is called: the \<^verbatim>\<open>TypeError\<close> is caught and logged at level ERROR.  The file system is unchanged,
  nothing escapes and the following tasks run, but the message is the error of a failed task, not
  the warning of the \<^verbatim>\<open>else\<close> branch, which is never reached.
\<close>

theorem unknown_action_logged_as_error:
  assumes "task_action t \<noteq> Some ''copy''"
    and "task_action t \<noteq> Some ''delete''"
    and "task_action t \<noteq> Some ''expand''"
  shows "execute_task E repo base_dir t w =
           (Returned,
            emit (Log ERROR (Error_during_task (task_action t)
                    (os_path_join base_dir (get_default (task_source t) [])) TypeError)) w)
         \<and> execute_tasks E (repo\<lparr>entry_tasks := t # ts\<rparr>) base_dir w =
           execute_tasks E (repo\<lparr>entry_tasks := ts\<rparr>) base_dir
             (emit (Log ERROR (Error_during_task (task_action t)
                     (os_path_join base_dir (get_default (task_source t) [])) TypeError)) w)"
proof -
  have func: "action_map_get (task_action t) (Str ''unknown'') = Str ''unknown''"
    using assms by (simp add: action_map_get_def)
  have one: "execute_task E repo' base_dir t w =
           (Returned,
            emit (Log ERROR (Error_during_task (task_action t)
                    (os_path_join base_dir (get_default (task_source t) [])) TypeError)) w)" for repo'
    by (simp add: execute_task_def func truth_def call_def Let_def logging_def)
  show ?thesis
    by (simp add: one execute_tasks_def)
qed

theorem unknown_action_logged_as_error_witness:
  "execute_task example_env example_entry ''out''
     \<lparr>task_action = Some ''unknown-op'', task_source = Some ''f.txt'', task_destination = None\<rparr>
     example_world =
   (Returned,
    example_world\<lparr>trace := [Log ERROR (Error_during_task (Some ''unknown-op'') ''out/f.txt'' TypeError)]\<rparr>)"
  using unknown_action_logged_as_error
    [of "\<lparr>task_action = Some ''unknown-op'', task_source = Some ''f.txt'', task_destination = None\<rparr>"
        example_env example_entry "''out''" example_world "[]"]
  by (simp add: emit_def example_world_def os_path_join_def startswith_slash_def endswith_def
      get_default_def)

section \<open>Lemmas on library calls\<close>

lemma world_fs_same [simp]: "w\<lparr>fs := fs w\<rparr> = w"
  by simp

lemma isdir_node_at:
  "os_path_isdir w p \<longleftrightarrow> p \<noteq> [] \<and> (\<exists>r es. node_at (fs w) (resolve w p) = Some (Dir r es))"
  by (auto simp: os_path_isdir_def lookup_def split: option.splits node.splits if_splits)

lemma resolve_emit [simp]: "resolve (emit ev w) p = resolve w p"
  by (simp add: resolve_def)

lemma os_makedirs_existing:
  "p \<noteq> [] \<Longrightarrow> node_at (fs w) (resolve w p) = Some (Dir r es) \<Longrightarrow>
   os_makedirs p w = (Returned, emit (Makedirs p) w)"
  by (simp add: os_makedirs_def Let_def mkdirs_existing)

lemma write_slot_directory:
  assumes "p \<noteq> []" and "node_at (fs w) (resolve w p) = Some (Dir r es)"
  shows "write_slot w p = Inr (Some (Dir r es))"
proof (cases "resolve w p = []")
  case True
  with assms show ?thesis by (simp add: write_slot_def)
next
  case False
  from node_at_parent [OF assms(2) False] obtain r' es'
    where "node_at (fs w) (butlast (resolve w p)) = Some (Dir r' es')" by blast
  with assms False show ?thesis by (simp add: write_slot_def)
qed

lemma open_wb_write_directory:
  "p \<noteq> [] \<Longrightarrow> node_at (fs w) (resolve w p) = Some (Dir r es) \<Longrightarrow>
   open_wb_write p data w = (Raised (OSError IsADirectoryError), emit (Open_wb p) w)"
  by (simp add: open_wb_write_def Let_def write_slot_directory write_node_def)

lemma exits_simps [simp]:
  "\<not> exits Returned" "\<not> exits (Raised e)" "exits (Exited c)"
  by (simp_all add: exits_def)

lemma seq_no_exit:
  assumes "\<And>w. \<not> exits (fst (f w))" and "\<And>w. \<not> exits (fst (g w))"
  shows "\<not> exits (fst (seq f g w))"
proof (cases "f w")
  case (Pair out w')
  with assms(1) [of w] assms(2) [of w'] show ?thesis
    by (cases out) (simp_all add: seq_def)
qed

lemma try_except_no_exit:
  assumes "\<And>w. \<not> exits (fst (f w))" and "\<And>e w. \<not> exits (fst (h e w))"
  shows "\<not> exits (fst (try_except f h w))"
proof (cases "f w")
  case (Pair out w')
  with assms(1) [of w] assms(2) [of _ w'] show ?thesis
    by (cases out) (simp_all add: try_except_def)
qed

lemma logging_no_exit: "\<not> exits (fst (logging lv msg w))"
  by (simp add: logging_def)

lemma os_makedirs_no_exit: "\<not> exits (fst (os_makedirs p w))"
  by (simp add: os_makedirs_def Let_def split: sum.splits)

lemma os_remove_no_exit: "\<not> exits (fst (os_remove p w))"
  by (simp add: os_remove_def Let_def split: option.splits node.splits)

lemma shutil_rmtree_no_exit: "\<not> exits (fst (shutil_rmtree h p w))"
  by (simp add: shutil_rmtree_def Let_def split: option.splits node.splits prod.splits)

lemma shutil_copy2_no_exit: "\<not> exits (fst (shutil_copy2 src dst w))"
  by (simp add: shutil_copy2_def Let_def split: option.splits node.splits sum.splits)

lemma shutil_copytree_no_exit: "\<not> exits (fst (shutil_copytree src dst w))"
  by (simp add: shutil_copytree_def Let_def split: option.splits node.splits sum.splits prod.splits)

lemma extract_archive_no_exit: "\<not> exits (fst (extract_archive E kind src dst w))"
  by (simp add: extract_archive_def Let_def split: option.splits prod.splits)

lemmas no_exit =
  seq_no_exit try_except_no_exit logging_no_exit os_makedirs_no_exit os_remove_no_exit
  shutil_rmtree_no_exit shutil_copy2_no_exit shutil_copytree_no_exit extract_archive_no_exit

lemma TaskExecutor_copy_no_exit: "\<not> exits (fst (TaskExecutor_copy repo source destination w))"
  by (simp add: TaskExecutor_copy_def no_exit)

lemma TaskExecutor_delete_no_exit: "\<not> exits (fst (TaskExecutor_delete source destination w))"
  by (simp add: TaskExecutor_delete_def no_exit)

lemma TaskExecutor_expand_no_exit: "\<not> exits (fst (TaskExecutor_expand E source destination w))"
  by (cases destination) (simp_all add: TaskExecutor_expand_def no_exit)

lemma call_no_exit: "\<not> exits (fst (call E repo func source destination w))"
  by (cases func)
     (simp_all add: call_def TaskExecutor_copy_no_exit TaskExecutor_delete_no_exit
        TaskExecutor_expand_no_exit)

lemma execute_task_Returned: "fst (execute_task E repo base_dir t w) = Returned"
proof -
  have "fst (try_except (call E repo func source destination)
               (\<lambda>e. logging ERROR (Error_during_task action source e)) w) = Returned"
    for func source destination action
  proof (cases "call E repo func source destination w")
    case (Pair out w')
    with call_no_exit [of E repo func source destination w] show ?thesis
      by (cases out) (simp_all add: try_except_def logging_def)
  qed
  then show ?thesis
    by (simp add: execute_task_def Let_def logging_def)
qed
lemma for_each_Returned:
  assumes "\<And>x w. fst (body x w) = Returned"
  shows "fst (for_each body xs w) = Returned"
proof (induction xs arbitrary: w)
  case Nil
  show ?case by simp
next
  case (Cons x xs)
  obtain out w' where b: "body x w = (out, w')" by (cases "body x w")
  with assms [of x w] have "out = Returned" by simp
  with b Cons show ?case by simp
qed

lemma execute_tasks_Returned: "fst (execute_tasks E repo base_dir w) = Returned"
  unfolding execute_tasks_def by (rule for_each_Returned) (rule execute_task_Returned)



lemma lookup_emit [simp]: "lookup (emit ev w) p = lookup w p"
  by (simp add: lookup_def)

lemma os_path_isdir_emit [simp]: "os_path_isdir (emit ev w) p = os_path_isdir w p"
  by (simp add: os_path_isdir_def)

lemma os_path_isfile_emit [simp]: "os_path_isfile (emit ev w) p = os_path_isfile w p"
  by (simp add: os_path_isfile_def)

lemma os_path_exists_emit [simp]: "os_path_exists (emit ev w) p = os_path_exists w p"
  by (simp add: os_path_exists_def)





lemmas path_eval =
  os_path_join_def os_path_dirname_def os_path_basename_def path_head_def rstrip_slash_def
  startswith_slash_def endswith_def components_def proper_name_def names_directory_def resolve_def


section \<open>Entries without a destination\<close>

text \<open>
  Claim C3.  An entry without \<^verbatim>\<open>url\<close> is reported and skipped, but an entry without
  \<^verbatim>\<open>destination\<close> is not.  For a repository, \<^verbatim>\<open>self.repo['destination']\<close> raises
  \<^verbatim>\<open>KeyError\<close> before anything is logged, and the exception ends the loop over the repositories.
  For an artifact, the destination defaults to the empty string, the joined path is the project
  root followed by a separator and hence not empty, so the test \<^verbatim>\<open>not destination\<close> fails: the
  parent directory is made, the request is sent, and the run ends with an exception (of the
  transport, or of opening a directory for writing).
\<close>

theorem missing_destination_is_not_reported:
  assumes "entry_destination repo = None"
    and "entry_destination artifact = None"
    and "truthy (entry_url artifact)"
    and "base_dir \<noteq> []"
    and "os_path_isdir w base_dir"
  shows "clone_repository E repo base_dir w = (Raised (KeyError ''destination''), w)
       \<and> for_each (\<lambda>repo. clone_repository E repo base_dir) (repo # repos) w
           = (Raised (KeyError ''destination''), w)
       \<and> (\<exists>e rest.
             fst (download E artifact base_dir w) = Raised e
           \<and> trace (snd (download E artifact base_dir w)) =
               trace w @ [Makedirs (os_path_dirname (os_path_join base_dir [])),
                          Log INFO (Downloading (the (entry_url artifact)) (os_path_join base_dir [])),
                          Requests_get (the (entry_url artifact))] @ rest
           \<and> set rest \<subseteq> {Open_wb (os_path_join base_dir [])})"
proof -
  let ?d = "os_path_join base_dir []"
  let ?u = "the (entry_url artifact)"
  have clone: "clone_repository E repo base_dir w = (Raised (KeyError ''destination''), w)"
    using assms(1) by (simp add: clone_repository_def)
  from assms(4,5) obtain r es where dir: "node_at (fs w) (resolve w base_dir) = Some (Dir r es)"
    by (auto simp: isdir_node_at)
  have d: "?d \<noteq> []" using assms(4) by (rule join_nonempty)
  have dn: "os_path_dirname ?d \<noteq> []" using assms(4) by (rule dirname_join_nonempty)
  let ?w1 = "emit (Makedirs (os_path_dirname ?d)) w"
  let ?w2 = "emit (Log INFO (Downloading ?u ?d)) ?w1"
  let ?w3 = "emit (Requests_get ?u) ?w2"
  have mk: "os_makedirs (os_path_dirname ?d) w = (Returned, ?w1)"
    using dn dir assms(4) by (simp add: os_makedirs_existing resolve_dirname_join_Nil)
  have wr: "open_wb_write ?d data ?w3 = (Raised (OSError IsADirectoryError), emit (Open_wb ?d) ?w3)" for data
    using d dir assms(4) by (simp add: open_wb_write_directory resolve_join_Nil)
  have dl: "download E artifact base_dir w =
      seq (http_download E ?u ?d) (execute_tasks E artifact base_dir) ?w2"
    using assms(2,3) d mk by (simp add: download_def Let_def get_default_def)
  have "\<exists>e w' rest. http_download E ?u ?d ?w2 = (Raised e, w')
          \<and> trace w' = trace ?w3 @ rest \<and> set rest \<subseteq> {Open_wb ?d}"
    by (cases "requests_get E ?u") (auto simp: http_download_def Let_def wr)
  then obtain e w' rest where "http_download E ?u ?d ?w2 = (Raised e, w')"
    and "trace w' = trace ?w3 @ rest" and "set rest \<subseteq> {Open_wb ?d}" by blast
  with dl have "fst (download E artifact base_dir w) = Raised e
      \<and> trace (snd (download E artifact base_dir w)) = trace ?w3 @ rest" by simp
  with \<open>set rest \<subseteq> {Open_wb ?d}\<close> clone show ?thesis by auto
qed


theorem missing_destination_is_not_reported_witness:
  "clone_repository example_env (example_entry\<lparr>entry_destination := None\<rparr>) ''out'' example_world
     = (Raised (KeyError ''destination''), example_world)
   \<and> fst (download example_env (example_entry\<lparr>entry_destination := None\<rparr>) ''out'' example_world)
     = Raised (OSError IsADirectoryError)
   \<and> trace (snd (download example_env (example_entry\<lparr>entry_destination := None\<rparr>) ''out'' example_world))
     = [Makedirs ''out'', Log INFO (Downloading ''https://example.com/lib.git'' ''out/''),
        Requests_get ''https://example.com/lib.git'', Open_wb ''out/'']"
proof -
  have dir: "os_path_isdir example_world ''out''"
    by (simp add: os_path_isdir_def lookup_def resolve_def example_world_def example_fs_def
        startswith_slash_def components_def proper_name_def names_directory_def)
  have "Requests_get ''https://example.com/lib.git''
      \<in> set (trace (snd (download example_env (example_entry\<lparr>entry_destination := None\<rparr>) ''out'' example_world)))"
    using missing_destination_is_not_reported
      [of "example_entry\<lparr>entry_destination := None\<rparr>" "example_entry\<lparr>entry_destination := None\<rparr>"
          "''out''" example_world example_env "[]", OF _ _ _ _ dir]
    by (auto simp: example_entry_def truthy_def)
  then show ?thesis
    by (simp add: clone_repository_def download_def http_download_def open_wb_write_def
        os_makedirs_def write_slot_def write_node_def seq_def logging_def emit_def
        example_entry_def example_env_def example_world_def example_fs_def
        get_default_def truthy_def os_path_join_def os_path_dirname_def path_head_def
        rstrip_slash_def startswith_slash_def endswith_def resolve_def components_def
        proper_name_def names_directory_def Let_def)
qed

lemma truth_action_map_get [simp]: "truth (action_map_get action (Str ''unknown''))"
  by (simp add: action_map_get_def truth_def)



section \<open>Isolation of task failures\<close>














section \<open>The delete operation\<close>




section \<open>A delete task without source\<close>



lemma commands_append [simp]: "commands (xs @ ys) = commands xs @ commands ys"
  by (induction xs) (auto split: event.splits)

lemma extendsI:
  assumes "\<And>w. \<exists>new. trace (snd (f w)) = trace w @ new \<and> P (fst (f w)) new"
  shows "extends P f"
  using assms by (simp add: extends_def)

lemma extendsD:
  assumes "extends P f"
  obtains new where "trace (snd (f w)) = trace w @ new" and "P (fst (f w)) new"
  using assms by (auto simp: extends_def)

lemma extends_mono:
  assumes "extends P f" and "\<And>out new. P out new \<Longrightarrow> Q out new"
  shows "extends Q f"
  using assms unfolding extends_def by blast

lemma extends_seq:
  assumes f: "extends P f" and g: "extends Q g"
    and ret: "\<And>n1 out n2. P Returned n1 \<Longrightarrow> Q out n2 \<Longrightarrow> R out (n1 @ n2)"
    and stop: "\<And>out n. out \<noteq> Returned \<Longrightarrow> P out n \<Longrightarrow> R out n"
  shows "extends R (seq f g)"
proof (rule extendsI)
  fix w
  obtain out1 w1 where fw: "f w = (out1, w1)" by (cases "f w")
  from extendsD [OF f, of w] fw obtain n1 where n1: "trace w1 = trace w @ n1" "P out1 n1"
    by auto
  show "\<exists>new. trace (snd (seq f g w)) = trace w @ new \<and> R (fst (seq f g w)) new"
  proof (cases "out1 = Returned")
    case True
    obtain out2 w2 where gw: "g w1 = (out2, w2)" by (cases "g w1")
    from extendsD [OF g, of w1] gw obtain n2 where n2: "trace w2 = trace w1 @ n2" "Q out2 n2"
      by auto
    from True fw gw have "seq f g w = (out2, w2)" by (simp add: seq_def)
    moreover from n1 n2 True have "R out2 (n1 @ n2)" by (auto intro: ret)
    ultimately show ?thesis using n1 n2 by simp
  next
    case False
    with fw have "seq f g w = (out1, w1)" by (cases out1) (simp_all add: seq_def)
    moreover from False n1 have "R out1 n1" by (auto intro: stop)
    ultimately show ?thesis using n1 by simp
  qed
qed

lemma extends_try_except:
  assumes f: "extends P f" and h: "\<And>e. extends Q (h e)"
    and caught: "\<And>e n1 out n2. P (Raised e) n1 \<Longrightarrow> Q out n2 \<Longrightarrow> R out (n1 @ n2)"
    and pass: "\<And>out n. (\<forall>e. out \<noteq> Raised e) \<Longrightarrow> P out n \<Longrightarrow> R out n"
  shows "extends R (try_except f h)"
proof (rule extendsI)
  fix w
  obtain out1 w1 where fw: "f w = (out1, w1)" by (cases "f w")
  from extendsD [OF f, of w] fw obtain n1 where n1: "trace w1 = trace w @ n1" "P out1 n1"
    by auto
  show "\<exists>new. trace (snd (try_except f h w)) = trace w @ new \<and> R (fst (try_except f h w)) new"
  proof (cases out1)
    case (Raised e)
    obtain out2 w2 where hw: "h e w1 = (out2, w2)" by (cases "h e w1")
    from extendsD [OF h, of e w1] hw obtain n2 where n2: "trace w2 = trace w1 @ n2" "Q out2 n2"
      by auto
    from Raised fw hw have "try_except f h w = (out2, w2)" by (simp add: try_except_def)
    moreover from n1 n2 Raised have "R out2 (n1 @ n2)" by (auto intro: caught)
    ultimately show ?thesis using n1 n2 by simp
  next
    case Returned
    with fw have "try_except f h w = (out1, w1)" by (simp add: try_except_def)
    moreover from Returned n1 have "R out1 n1" by (auto intro: pass)
    ultimately show ?thesis using n1 by simp
  next
    case (Exited c)
    with fw have "try_except f h w = (out1, w1)" by (simp add: try_except_def)
    moreover from Exited n1 have "R out1 n1" by (auto intro: pass)
    ultimately show ?thesis using n1 by simp
  qed
qed

lemma extends_if:
  assumes "extends P f" and "extends P g"
  shows "extends P (\<lambda>w. if c w then f w else g w)"
  using assms unfolding extends_def by auto

lemma extends_for_each:
  assumes body: "\<And>x. extends P (body x)"
    and nil: "P Returned []"
    and ret: "\<And>n1 out n2. P Returned n1 \<Longrightarrow> P out n2 \<Longrightarrow> P out (n1 @ n2)"
  shows "extends P (for_each body xs)"
proof (induction xs)
  case Nil
  show ?case by (rule extendsI) (simp add: nil)
next
  case (Cons x xs)
  have "for_each body (x # xs) = seq (body x) (for_each body xs)"
    by (intro ext) (simp add: seq_def split: prod.splits outcome.splits)
  moreover have "extends P (seq (body x) (for_each body xs))"
    by (rule extends_seq [OF body Cons]) (auto intro: ret)
  ultimately show ?case by simp
qed

lemma quiet_Nil [simp]: "quiet Returned []" "quiet (Raised e) []"
  by (simp_all add: quiet_def)

lemma quiet_seq:
  assumes "extends quiet f" and "extends quiet g"
  shows "extends quiet (seq f g)"
  by (rule extends_seq [OF assms]) (auto simp: quiet_def)

lemma quiet_try_except:
  assumes "extends quiet f" and "\<And>e. extends quiet (h e)"
  shows "extends quiet (try_except f h)"
  by (rule extends_try_except [OF assms]) (auto simp: quiet_def)

lemma quiet_for_each:
  assumes "\<And>x. extends quiet (body x)"
  shows "extends quiet (for_each body xs)"
  by (rule extends_for_each [OF assms]) (auto simp: quiet_def)

lemma quiet_return: "extends quiet (\<lambda>w. (Returned, w))" "extends quiet (\<lambda>w. (Raised e, w))"
  by (rule extendsI, simp)+

lemma quiet_logging: "extends quiet (logging lv msg)"
  by (rule extendsI) (simp add: logging_def quiet_def)

lemma quiet_os_makedirs: "extends quiet (os_makedirs p)"
  by (rule extendsI) (simp add: os_makedirs_def Let_def quiet_def split: sum.splits)

lemma quiet_os_remove: "extends quiet (os_remove p)"
  by (rule extendsI) (simp add: os_remove_def Let_def quiet_def split: option.splits node.splits)

lemma quiet_shutil_rmtree: "extends quiet (shutil_rmtree h p)"
  by (rule extendsI)
     (simp add: shutil_rmtree_def Let_def quiet_def split: option.splits node.splits prod.splits)

lemma quiet_shutil_copy2: "extends quiet (shutil_copy2 src dst)"
  by (rule extendsI)
     (simp add: shutil_copy2_def Let_def quiet_def split: option.splits node.splits sum.splits)

lemma quiet_shutil_copytree: "extends quiet (shutil_copytree src dst)"
  by (rule extendsI)
     (simp add: shutil_copytree_def Let_def quiet_def
        split: option.splits node.splits sum.splits prod.splits)

lemma quiet_extract_archive: "extends quiet (extract_archive E kind src dst)"
  by (rule extendsI)
     (simp add: extract_archive_def Let_def quiet_def split: option.splits prod.splits)

lemma quiet_open_wb_write: "extends quiet (open_wb_write p data)"
  by (rule extendsI)
     (simp add: open_wb_write_def Let_def quiet_def split: sum.splits)

lemmas quiet_intros =
  quiet_seq quiet_try_except quiet_for_each extends_if quiet_return quiet_logging quiet_os_makedirs
  quiet_os_remove quiet_shutil_rmtree quiet_shutil_copy2 quiet_shutil_copytree
  quiet_extract_archive quiet_open_wb_write

lemma quiet_TaskExecutor_copy: "extends quiet (TaskExecutor_copy repo source destination)"
  unfolding TaskExecutor_copy_def [abs_def] by (intro quiet_intros)

lemma quiet_TaskExecutor_delete: "extends quiet (TaskExecutor_delete source destination)"
  unfolding TaskExecutor_delete_def [abs_def] by (intro quiet_intros)

lemma quiet_TaskExecutor_expand: "extends quiet (TaskExecutor_expand E source destination)"
  unfolding TaskExecutor_expand_def [abs_def]
  by (cases destination) (auto intro!: quiet_intros)

lemma quiet_call: "extends quiet (call E repo func source destination)"
  unfolding call_def [abs_def]
  by (cases func)
     (simp_all add: quiet_TaskExecutor_copy quiet_TaskExecutor_delete quiet_TaskExecutor_expand
        quiet_return)

lemma quiet_execute_task: "extends quiet (execute_task E repo base_dir t)"
  unfolding execute_task_def [abs_def] Let_def
  by (auto intro!: quiet_intros quiet_call)

lemma quiet_execute_tasks: "extends quiet (execute_tasks E repo base_dir)"
  unfolding execute_tasks_def [abs_def]
  by (intro quiet_for_each quiet_execute_task)

lemma extends_after_emit:
  assumes "extends P f" and "\<And>out n. P out n \<Longrightarrow> Q out (ev # n)"
  shows "extends Q (\<lambda>w. f (emit ev w))"
proof (rule extendsI)
  fix w
  from extendsD [OF assms(1), of "emit ev w"] obtain n
    where "trace (snd (f (emit ev w))) = trace (emit ev w) @ n" and "P (fst (f (emit ev w))) n"
    by blast
  then have "trace (snd (f (emit ev w))) = trace w @ (ev # n) \<and> Q (fst (f (emit ev w))) (ev # n)"
    using assms(2) by simp
  then show "\<exists>new. trace (snd (f (emit ev w))) = trace w @ new \<and> Q (fst (f (emit ev w))) new" ..
qed

lemma quiet_http_download: "extends quiet (http_download E url destination)"
proof (cases "requests_get E url")
  case (Request_failed e)
  then show ?thesis
    by (intro extendsI) (simp add: http_download_def Let_def quiet_def)
next
  case (Response status chunks interrupted)
  show ?thesis
  proof (cases "400 \<le> status \<and> status < 600")
    case True
    with Response show ?thesis
      by (intro extendsI) (simp add: http_download_def Let_def quiet_def)
  next
    case False
    have "extends quiet (seq (open_wb_write destination (concat chunks))
        (\<lambda>w2. (case interrupted of None \<Rightarrow> Returned | Some e \<Rightarrow> Raised e, w2)))"
      by (cases interrupted) (simp_all add: quiet_intros)
    then have "extends quiet (\<lambda>w. seq (open_wb_write destination (concat chunks))
        (\<lambda>w2. (case interrupted of None \<Rightarrow> Returned | Some e \<Rightarrow> Raised e, w2))
        (emit (Requests_get url) w))"
      by (rule extends_after_emit) (simp add: quiet_def)
    moreover have "http_download E url destination =
        (\<lambda>w. seq (open_wb_write destination (concat chunks))
        (\<lambda>w2. (case interrupted of None \<Rightarrow> Returned | Some e \<Rightarrow> Raised e, w2))
        (emit (Requests_get url) w))"
      using Response False by (intro ext) (auto simp: http_download_def Let_def)
    ultimately show ?thesis by simp
  qed
qed

lemma quiet_download: "extends quiet (download E artifact base_dir)"
  unfolding download_def [abs_def] Let_def
  by (intro quiet_intros quiet_http_download quiet_execute_tasks)

lemma clean_simps [simp]:
  "clean []" "clean (xs @ ys) = (clean xs \<and> clean ys)" "clean (ev # xs) = (\<not> failed ev \<and> clean xs)"
  by (simp_all add: clean_def)

lemma failed_simps [simp]:
  "\<not> failed (Log lv msg)"
  "failed (Subprocess_run c (Completed rc out err)) = (rc \<noteq> 0)"
  "\<not> failed (Subprocess_run c (Not_started e))"
  by (simp_all add: failed_def)

lemma commands_Nil_clean: "commands new = [] \<Longrightarrow> clean new"
  by (induction new) (auto simp: failed_def split: event.splits)

lemma fatal_of_quiet: "extends quiet f \<Longrightarrow> extends fatal f"
  by (erule extends_mono) (simp add: quiet_def fatal_def commands_Nil_clean)

lemma fatal_Returned: "fatal Returned new \<Longrightarrow> clean new"
  by (auto simp: fatal_def)

lemma fatal_seq:
  assumes "extends fatal f" and "extends fatal g"
  shows "extends fatal (seq f g)"
proof (rule extends_seq [OF assms])
  fix n1 out n2
  assume "fatal Returned n1" and "fatal out n2"
  then have "clean n1" and "fatal out n2" by (auto dest: fatal_Returned)
  then show "fatal out (n1 @ n2)"
    unfolding fatal_def
    by (elim disjE exE conjE) (simp, metis append.assoc clean_simps(2))
qed simp

lemma fatal_for_each:
  assumes "\<And>x. extends fatal (body x)"
  shows "extends fatal (for_each body xs)"
proof (rule extends_for_each [OF assms])
  show "fatal Returned []" by (simp add: fatal_def)
next
  fix n1 out n2
  assume "fatal Returned n1" and "fatal out n2"
  then have "clean n1" and "fatal out n2" by (auto dest: fatal_Returned)
  then show "fatal out (n1 @ n2)"
    unfolding fatal_def
    by (elim disjE exE conjE) (simp, metis append.assoc clean_simps(2))
qed

lemma fatal_run_command: "extends fatal (run_command E command)"
proof (rule extendsI)
  fix w :: world
  obtain res t where r: "subprocess_run E command (fs w) = (res, t)"
    by (cases "subprocess_run E command (fs w)")
  show "\<exists>new. trace (snd (run_command E command w)) = trace w @ new
          \<and> fatal (fst (run_command E command w)) new"
  proof (cases res)
    case (Not_started e)
    with r show ?thesis by (simp add: run_command_def fatal_def)
  next
    case (Completed rc out err)
    show ?thesis
    proof (cases "rc = 0")
      case True
      with r Completed show ?thesis
        by (simp add: run_command_def Let_def fatal_def logging_def seq_def)
    next
      case False
      with r Completed have
        "trace (snd (run_command E command w)) =
           trace w @ [] @ [Subprocess_run command (Completed rc out err),
                           Log ERROR (Error_running_command command)]"
        and "fst (run_command E command w) = Exited 1"
        by (simp_all add: run_command_def Let_def)
      with False show ?thesis
        unfolding fatal_def by (metis append_Nil clean_simps(1))
    qed
  qed
qed

lemma fatal_exit: "extends fatal (\<lambda>w. (Exited c, w))"
  by (rule extendsI) (simp add: fatal_def)

lemmas fatal_quiet_intros =
  quiet_return [THEN fatal_of_quiet] quiet_logging [THEN fatal_of_quiet]
  quiet_os_makedirs [THEN fatal_of_quiet] quiet_execute_tasks [THEN fatal_of_quiet]
  quiet_download [THEN fatal_of_quiet]

lemma fatal_clone_repository: "extends fatal (clone_repository E repo base_dir)"
proof (cases "entry_destination repo")
  case None
  then have "clone_repository E repo base_dir = (\<lambda>w. (Raised (KeyError ''destination''), w))"
    by (intro ext) (simp add: clone_repository_def)
  then show ?thesis by (simp add: fatal_quiet_intros)
next
  case (Some d)
  show ?thesis
    unfolding clone_repository_def [abs_def] Let_def Some option.case
    by (intro fatal_seq extends_if fatal_run_command fatal_quiet_intros)
qed

lemma fatal_run: "extends fatal (run E config)"
  unfolding run_def [abs_def] Let_def
  by (intro fatal_seq extends_if fatal_for_each fatal_clone_repository fatal_exit fatal_quiet_intros)

lemma failed_event_unique:
  assumes "clean pre" and "\<not> failed l" and "failed f'"
    and "pre @ [f, l] = pre' @ f' # post"
  shows "pre' = pre \<and> f' = f \<and> post = [l]"
  using assms
proof (induction pre arbitrary: pre')
  case Nil
  then show ?case
    by (cases pre') (auto simp: Cons_eq_append_conv)
next
  case (Cons a pre)
  then show ?case
    by (cases pre') auto
qed

section \<open>A failed command ends the run\<close>

text \<open>
  Claim C4.  Every invocation of the version-control client is an event of the trace.  Whenever a
  run has invoked a command that exited with a non-zero status, the run has ended with exit code
  1, and nothing but the message \<^verbatim>\<open>Error running command\<close> was done after that command: no
  further command, request, library call or message, hence no later repository, artifact or task.
\<close>

theorem failed_command_ends_run:
  assumes "run E config w = (out, w')"
    and "trace w' = trace w @ pre @ Subprocess_run c (Completed rc out' err) # post"
    and "rc \<noteq> 0"
  shows "out = Exited 1 \<and> post = [Log ERROR (Error_running_command c)]"
proof -
  from extendsD [OF fatal_run, of E config w] assms(1)
  obtain new where new: "trace w' = trace w @ new" and f: "fatal out new"
    by auto
  from new assms(2) have eq: "new = pre @ Subprocess_run c (Completed rc out' err) # post"
    by simp
  with assms(3) have "\<not> clean new" by simp
  with f obtain pre0 c0 rc0 out0 err0 where "clean pre0" and out: "out = Exited 1"
    and "new = pre0 @ [Subprocess_run c0 (Completed rc0 out0 err0), Log ERROR (Error_running_command c0)]"
    by (auto simp: fatal_def)
  with eq have "pre0 @ [Subprocess_run c0 (Completed rc0 out0 err0), Log ERROR (Error_running_command c0)]
      = pre @ Subprocess_run c (Completed rc out' err) # post"
    by simp
  from failed_event_unique [OF \<open>clean pre0\<close> _ _ this] assms(3)
  have "Subprocess_run c (Completed rc out' err) = Subprocess_run c0 (Completed rc0 out0 err0)"
    and "post = [Log ERROR (Error_running_command c0)]"
    by simp_all
  with out show ?thesis by simp
qed

theorem failed_command_ends_run_witness:
  "run failing_env example_manifest example_world =
     (Exited 1,
      example_world
        \<lparr>fs := put_at example_fs [''home'', ''out'', ''new''] (Some (Dir False [])),
         trace :=
           [Makedirs ''out'', Log INFO (Cloning_sources (Some ''lib'')), Makedirs ''out/new'',
            Log INFO (Cloning_into ''https://example.com/lib.git'' ''out/new''),
            Subprocess_run [''git'', ''clone'', ''--branch'', ''main'', ''--single-branch'',
                            ''https://example.com/lib.git'', ''out/new'']
              (Completed 128 [] ''fatal: repository not found''),
            Log ERROR (Error_running_command
              [''git'', ''clone'', ''--branch'', ''main'', ''--single-branch'',
               ''https://example.com/lib.git'', ''out/new''])]\<rparr>)"
proof -
  let ?c = "[''git'', ''clone'', ''--branch'', ''main'', ''--single-branch'',
             ''https://example.com/lib.git'', ''out/new'']"
  let ?pre = "[Makedirs ''out'', Log INFO (Cloning_sources (Some ''lib'')), Makedirs ''out/new'',
               Log INFO (Cloning_into ''https://example.com/lib.git'' ''out/new'')]"
  obtain out w' where r: "run failing_env example_manifest example_world = (out, w')"
    by (cases "run failing_env example_manifest example_world")
  have clone: "clone_repository failing_env (example_entry\<lparr>entry_destination := Some ''new''\<rparr>) ''out''
      (example_world\<lparr>trace := [Makedirs ''out'']\<rparr>) =
     (Exited 1,
      example_world
        \<lparr>fs := put_at example_fs [''home'', ''out'', ''new''] (Some (Dir False [])),
         trace := ?pre @ [Subprocess_run ?c (Completed 128 [] ''fatal: repository not found''),
                          Log ERROR (Error_running_command ?c)]\<rparr>)"
    by (simp add: clone_repository_def run_command_def os_makedirs_def os_path_exists_def
        lookup_def seq_def logging_def emit_def truthy_def get_default_def Let_def
        failing_env_def example_entry_def example_world_def example_fs_def path_eval)
  have mk: "os_makedirs ''out'' example_world = (Returned, example_world\<lparr>trace := [Makedirs ''out'']\<rparr>)"
    by (simp add: os_makedirs_def emit_def Let_def example_world_def example_fs_def path_eval)
  have ev: "run failing_env example_manifest example_world =
     (fst (run failing_env example_manifest example_world),
      example_world
        \<lparr>fs := put_at example_fs [''home'', ''out'', ''new''] (Some (Dir False [])),
         trace := ?pre @ [Subprocess_run ?c (Completed 128 [] ''fatal: repository not found''),
                          Log ERROR (Error_running_command ?c)]\<rparr>)"
    by (simp add: run_def Let_def truthy_def example_manifest_def mk clone)
  with r have tr: "trace w' = trace example_world @ ?pre
      @ Subprocess_run ?c (Completed 128 [] ''fatal: repository not found'')
      # [Log ERROR (Error_running_command ?c)]"
    by (auto simp: example_world_def)
  from failed_command_ends_run [OF r tr] have "out = Exited 1" by simp
  with r ev show ?thesis by simp
qed

lemma commands_snoc [simp]: "commands (xs @ [Log lv msg]) = commands xs"
  "commands (xs @ [Subprocess_run c r]) = commands xs @ [c]"
  by simp_all

lemma ran_run_command: "extends (ran [command]) (run_command E command)"
proof (rule extendsI)
  fix w :: world
  obtain res t where r: "subprocess_run E command (fs w) = (res, t)"
    by (cases "subprocess_run E command (fs w)")
  show "\<exists>new. trace (snd (run_command E command w)) = trace w @ new
          \<and> ran [command] (fst (run_command E command w)) new"
  proof (cases res)
    case (Not_started e)
    with r show ?thesis by (simp add: run_command_def ran_def)
  next
    case (Completed rc out err)
    with r show ?thesis
      by (simp add: run_command_def Let_def logging_def seq_def ran_def)
  qed
qed

lemma ran_ok_run_command:
  assumes "succeeds E command"
  shows "extends (ran_ok [command]) (run_command E command)"
proof (rule extendsI)
  fix w :: world
  from assms obtain out err t where "subprocess_run E command (fs w) = (Completed 0 out err, t)"
    unfolding succeeds_def by blast
  then show "\<exists>new. trace (snd (run_command E command w)) = trace w @ new
          \<and> ran_ok [command] (fst (run_command E command w)) new"
    by (simp add: run_command_def Let_def logging_def seq_def ran_ok_def)
qed

lemma ran_ok_logging: "extends (ran_ok []) (logging lv msg)"
  by (rule extendsI) (simp add: logging_def ran_ok_def)

lemma ran_ok_return: "extends (ran_ok []) (\<lambda>w. (Returned, w))"
  by (rule extendsI) (simp add: ran_ok_def)

lemma ran_ok_execute_tasks: "extends (ran_ok []) (execute_tasks E repo base_dir)"
proof (rule extendsI)
  fix w
  from extendsD [OF quiet_execute_tasks, of E repo base_dir w] obtain new
    where "trace (snd (execute_tasks E repo base_dir w)) = trace w @ new"
      and "quiet (fst (execute_tasks E repo base_dir w)) new"
    by blast
  then show "\<exists>new. trace (snd (execute_tasks E repo base_dir w)) = trace w @ new
          \<and> ran_ok [] (fst (execute_tasks E repo base_dir w)) new"
    by (auto simp: quiet_def ran_ok_def execute_tasks_Returned)
qed

lemma ran_of_ran_ok: "extends (ran_ok cs) f \<Longrightarrow> extends (ran cs) f"
  by (erule extends_mono) (simp add: ran_ok_def ran_def)

lemma ran_ok_seq:
  assumes "extends (ran_ok xs) f" and "extends (ran_ok ys) g"
  shows "extends (ran_ok (xs @ ys)) (seq f g)"
  by (rule extends_seq [OF assms]) (auto simp: ran_ok_def)

lemma ran_seq_ok:
  assumes "extends (ran_ok xs) f" and "extends (ran ys) g"
  shows "extends (ran (xs @ ys)) (seq f g)"
  by (rule extends_seq [OF assms]) (auto simp: ran_ok_def ran_def)

lemma ran_some_seq:
  assumes "extends (ran xs) f" and "extends (ran_some n ys) g"
  shows "extends (ran_some (length xs) (xs @ ys)) (seq f g)"
proof (rule extends_seq [OF assms])
  fix n1 out n2
  assume "ran xs Returned n1" and "ran_some n ys out n2"
  then obtain k where "commands n1 = xs" and "commands n2 = take k ys"
    by (auto simp: ran_def ran_some_def)
  then have "commands (n1 @ n2) = take (length xs + k) (xs @ ys)" by simp
  then show "ran_some (length xs) (xs @ ys) out (n1 @ n2)"
    unfolding ran_some_def by (metis le_add1)
next
  fix out n
  assume "ran xs out n"
  then have "commands n = take (length xs) (xs @ ys)" by (simp add: ran_def)
  then show "ran_some (length xs) (xs @ ys) out n"
    unfolding ran_some_def by blast
qed

lemma ran_some_of_ran: "extends (ran xs) f \<Longrightarrow> extends (ran_some (length xs) xs) f"
  by (erule extends_mono) (auto simp: ran_def ran_some_def)

lemma clone_repository_steps:
  assumes "entry_destination repo = Some d" and "truthy (entry_url repo)"
    and "os_path_join base_dir d \<noteq> []"
  shows "clone_repository E repo base_dir w =
     seq (os_makedirs (os_path_join base_dir d))
       (seq (clone_or_pull E repo (os_path_join base_dir d))
          (seq (checkout_commit E repo (os_path_join base_dir d))
             (seq (update_submodules E repo (os_path_join base_dir d))
                (execute_tasks E repo base_dir))))
       (emit (Log INFO (Cloning_sources (entry_repo repo))) w)"
proof -
  have "clone_or_pull E repo (os_path_join base_dir d) =
     (\<lambda>w2. if \<not> os_path_exists w2 (os_path_join (os_path_join base_dir d) ''.git'') then
        seq (logging INFO (Cloning_into (the (entry_url repo)) (os_path_join base_dir d)))
          (run_command E [''git'', ''clone'', ''--branch'', get_default (entry_branch repo) ''main'',
             ''--single-branch'', the (entry_url repo), os_path_join base_dir d]) w2
      else
        seq (logging INFO (Repository_already_exists (os_path_join base_dir d)))
          (run_command E [''git'', ''-C'', os_path_join base_dir d, ''pull'']) w2)"
    by (intro ext) (simp only: clone_or_pull_def)
  moreover have "checkout_commit E repo (os_path_join base_dir d) =
     (\<lambda>w3. if truthy (entry_commit repo) then
        seq (logging INFO (Checking_out_commit (the (entry_commit repo)) (os_path_join base_dir d)))
          (run_command E [''git'', ''-C'', os_path_join base_dir d, ''checkout'', the (entry_commit repo)]) w3
      else (Returned, w3))"
    by (intro ext) (simp only: checkout_commit_def)
  moreover have "update_submodules E repo (os_path_join base_dir d) =
     (\<lambda>w4. if truthy (entry_submodules repo) then
        (let submodule_command =
               [''git'', ''-C'', os_path_join base_dir d, ''submodule'', ''update'', ''--init'']
               @ (if entry_submodules repo = Some ''recursive'' then [''--recursive''] else [])
         in seq (logging INFO (Initializing_submodules (os_path_join base_dir d)))
              (run_command E submodule_command) w4)
      else (Returned, w4))"
    by (intro ext) (simp only: update_submodules_def)
  ultimately show ?thesis
    using assms by (simp add: clone_repository_def Let_def)
qed

lemma later_commands_split:
  "later_commands repo destination = checkout_commands repo destination @ submodule_commands repo destination"
  by (simp add: later_commands_def checkout_commands_def submodule_commands_def)

lemma ran_seq_quiet:
  assumes "extends (ran xs) f" and "extends (ran_ok []) g"
  shows "extends (ran xs) (seq f g)"
  by (rule extends_seq [OF assms]) (auto simp: ran_ok_def ran_def)

lemma ran_logged_command:
  "extends (ran [command]) (\<lambda>w. run_command E command (emit (Log lv msg) w))"
  by (rule extends_after_emit [OF ran_run_command]) (simp add: ran_def)

lemma ran_ok_logged_command:
  "succeeds E command \<Longrightarrow>
   extends (ran_ok [command]) (\<lambda>w. run_command E command (emit (Log lv msg) w))"
  by (rule extends_after_emit [OF ran_ok_run_command]) (simp_all add: ran_ok_def)

lemma ran_checkout_commit:
  "extends (ran (checkout_commands repo destination)) (checkout_commit E repo destination)"
  unfolding checkout_commit_def [abs_def] checkout_commands_def
  by (auto intro: ran_logged_command ran_ok_return [THEN ran_of_ran_ok])

lemma ran_update_submodules:
  "extends (ran (submodule_commands repo destination)) (update_submodules E repo destination)"
  unfolding update_submodules_def [abs_def] submodule_commands_def Let_def
  by (auto intro: ran_logged_command ran_ok_return [THEN ran_of_ran_ok])

lemma ran_ok_checkout_commit:
  assumes "\<And>c. c \<in> set (checkout_commands repo destination) \<Longrightarrow> succeeds E c"
  shows "extends (ran_ok (checkout_commands repo destination)) (checkout_commit E repo destination)"
  using assms unfolding checkout_commit_def [abs_def] checkout_commands_def
  by (auto intro: ran_ok_logged_command ran_ok_return)

lemma ran_ok_update_submodules:
  assumes "\<And>c. c \<in> set (submodule_commands repo destination) \<Longrightarrow> succeeds E c"
  shows "extends (ran_ok (submodule_commands repo destination)) (update_submodules E repo destination)"
  using assms unfolding update_submodules_def [abs_def] submodule_commands_def Let_def
  by (auto intro: ran_ok_logged_command ran_ok_return)

lemma ran_some_later:
  "extends (ran_some (length (checkout_commands repo destination)) (later_commands repo destination))
     (seq (checkout_commit E repo destination)
        (seq (update_submodules E repo destination) (execute_tasks E repo base_dir)))"
proof -
  have "extends (ran (submodule_commands repo destination))
     (seq (update_submodules E repo destination) (execute_tasks E repo base_dir))"
    by (rule ran_seq_quiet [OF ran_update_submodules ran_ok_execute_tasks])
  then have "extends (ran_some (length (submodule_commands repo destination))
       (submodule_commands repo destination))
     (seq (update_submodules E repo destination) (execute_tasks E repo base_dir))"
    by (rule ran_some_of_ran)
  from ran_some_seq [OF ran_checkout_commit this] show ?thesis
    by (simp only: later_commands_split)
qed

lemma ran_ok_later:
  assumes "\<And>c. c \<in> set (later_commands repo destination) \<Longrightarrow> succeeds E c"
  shows "extends (ran_ok (later_commands repo destination))
     (seq (checkout_commit E repo destination)
        (seq (update_submodules E repo destination) (execute_tasks E repo base_dir)))"
proof -
  have "extends (ran_ok (checkout_commands repo destination @ submodule_commands repo destination @ []))
     (seq (checkout_commit E repo destination)
        (seq (update_submodules E repo destination) (execute_tasks E repo base_dir)))"
    using assms
    by (intro ran_ok_seq ran_ok_checkout_commit ran_ok_update_submodules ran_ok_execute_tasks)
       (simp_all add: later_commands_split)
  then show ?thesis by (simp add: later_commands_split)
qed

lemma os_makedirs_Returned:
  assumes "os_makedirs p w = (Returned, w')"
  shows "p \<noteq> [] \<and> (\<exists>t. mkdirs (fs w) (resolve w p) = Inr t \<and> w' = (emit (Makedirs p) w)\<lparr>fs := t\<rparr>)"
  using assms by (auto simp: os_makedirs_def Let_def split: if_splits sum.splits)

lemma resolve_git: "dest \<noteq> [] \<Longrightarrow> resolve w (os_path_join dest ''.git'') = resolve w dest @ [''.git'']"
  by (simp add: resolve_join startswith_slash_def) (simp add: components_def proper_name_def)

lemma lookup_None: "lookup w p = None \<longleftrightarrow> p = [] \<or> node_at (fs w) (resolve w p) = None
    \<or> (names_directory p \<and> (\<exists>c m r. node_at (fs w) (resolve w p) = Some (File c m r)))"
  by (auto simp: lookup_def split: option.splits node.splits)

lemma names_directory_git: "\<not> names_directory (os_path_join dest ''.git'')"
proof -
  have "os_path_basename (os_path_join dest ''.git'') = ''.git''"
    by (auto simp: os_path_join_def os_path_basename_def startswith_slash_def endswith_slash_iff)
  then show ?thesis
    by (simp add: names_directory_basename proper_name_def)
qed

lemma exists_git:
  assumes "dest \<noteq> []"
  shows "os_path_exists w (os_path_join dest ''.git'') \<longleftrightarrow> node_at (fs w) (resolve w dest @ [''.git'']) \<noteq> None"
  using assms join_nonempty [OF assms, of "''.git''"]
  by (simp add: os_path_exists_def lookup_None names_directory_git resolve_git)

lemma exists_git_directory:
  assumes "dest \<noteq> []" and "os_path_exists w (os_path_join dest ''.git'')"
  shows "\<exists>r es. node_at (fs w) (resolve w dest) = Some (Dir r es)"
proof -
  from assms obtain n where "node_at (fs w) (resolve w dest @ [''.git'']) = Some n"
    by (auto simp: exists_git)
  from node_at_parent [OF this] show ?thesis by simp
qed

lemma exists_git_after_makedirs:
  assumes "dest \<noteq> []" and "os_makedirs dest w = (Returned, w')"
  shows "os_path_exists w' (os_path_join dest ''.git'') = os_path_exists w (os_path_join dest ''.git'')"
proof -
  from os_makedirs_Returned [OF assms(2)] obtain t
    where t: "mkdirs (fs w) (resolve w dest) = Inr t" and w': "w' = (emit (Makedirs dest) w)\<lparr>fs := t\<rparr>"
    by blast
  have "\<not> prefix (resolve w dest @ [''.git'']) (resolve w dest)"
    by (auto simp: prefix_def)
  from mkdirs_other [OF t this] have "node_at t (resolve w dest @ [''.git'']) = node_at (fs w) (resolve w dest @ [''.git''])" .
  moreover have "resolve w' dest = resolve w dest" using w' by (simp add: resolve_def)
  ultimately show ?thesis
    using assms(1) w' by (simp add: exists_git)
qed

lemma seq_first_cong: "f w = f' w \<Longrightarrow> seq f g w = seq f' g w"
  by (simp add: seq_def)

lemma clone_or_pull_then:
  fixes tail :: "world \<Rightarrow> outcome \<times> world"
  assumes "extends (ran_some n later) tail"
  shows "\<exists>k\<ge>1. commands (trace (snd (seq (clone_or_pull E repo dest) tail w2))) =
           commands (trace w2)
           @ take k ((if os_path_exists w2 (os_path_join dest ''.git'') then pull_command dest
                      else clone_command repo dest) # later)"
proof -
  let ?c = "if os_path_exists w2 (os_path_join dest ''.git'') then pull_command dest
            else clone_command repo dest"
  let ?msg = "if os_path_exists w2 (os_path_join dest ''.git'') then Repository_already_exists dest
              else Cloning_into (the (entry_url repo)) dest"
  let ?f = "\<lambda>w. run_command E ?c (emit (Log INFO ?msg) w)"
  have "clone_or_pull E repo dest w2 = ?f w2"
    by (simp add: clone_or_pull_def pull_command_def clone_command_def)
  then have eq: "seq (clone_or_pull E repo dest) tail w2 = seq ?f tail w2"
    by (rule seq_first_cong)
  have "extends (ran_some (length [?c]) ([?c] @ later)) (seq ?f tail)"
    by (rule ran_some_seq [OF ran_logged_command assms])
  from extendsD [OF this, of w2] obtain new
    where "trace (snd (seq ?f tail w2)) = trace w2 @ new" and "ran_some (length [?c]) ([?c] @ later) (fst (seq ?f tail w2)) new"
    by blast
  then show ?thesis
    unfolding eq ran_some_def by auto
qed

lemma clone_or_pull_then_ok:
  fixes tail :: "world \<Rightarrow> outcome \<times> world"
  assumes "extends (ran_ok later) tail" and "succeeds E (pull_command dest)"
    and "os_path_exists w2 (os_path_join dest ''.git'')"
  shows "fst (seq (clone_or_pull E repo dest) tail w2) = Returned"
proof -
  let ?f = "\<lambda>w. run_command E (pull_command dest) (emit (Log INFO (Repository_already_exists dest)) w)"
  have "clone_or_pull E repo dest w2 = ?f w2"
    using assms(3) by (simp add: clone_or_pull_def pull_command_def)
  then have eq: "seq (clone_or_pull E repo dest) tail w2 = seq ?f tail w2"
    by (rule seq_first_cong)
  have "extends (ran_ok ([pull_command dest] @ later)) (seq ?f tail)"
    by (rule ran_ok_seq [OF ran_ok_logged_command [OF assms(2)] assms(1)])
  from extendsD [OF this, of w2] show ?thesis
    unfolding eq ran_ok_def by auto
qed

section \<open>Clone or update\<close>

text \<open>
  Claim C5.  For a repository entry with url and destination, what decides between update and
  clone is whether \<^verbatim>\<open>.git\<close> exists inside the resolved destination.  When it exists, the first
  command of the entry is \<^verbatim>\<open>git -C destination pull\<close>, every command of the entry is one of the
  pull, checkout and submodule commands, none of which is the clone command, and when the client
  succeeds the entry returns: the existing \<^verbatim>\<open>.git\<close> causes no error.  When it does not exist (and
  the destination directory can be made), the first command is the clone of the single branch
  named by the entry, \<^verbatim>\<open>main\<close> when the entry names none.  The commands run are a prefix of the
  planned ones, of length at least one: a failing command ends the run.
\<close>

theorem clone_or_update:
  assumes "entry_destination repo = Some d"
    and "truthy (entry_url repo)"
    and "base_dir \<noteq> []"
  shows "(os_path_exists w (os_path_join (os_path_join base_dir d) ''.git'') \<longrightarrow>
           (\<exists>k\<ge>1. commands (trace (snd (clone_repository E repo base_dir w))) =
                   commands (trace w)
                   @ take k (pull_command (os_path_join base_dir d)
                             # later_commands repo (os_path_join base_dir d)))
           \<and> clone_command repo (os_path_join base_dir d)
               \<notin> set (pull_command (os_path_join base_dir d)
                         # later_commands repo (os_path_join base_dir d))
           \<and> ((\<forall>c. succeeds E c) \<longrightarrow> fst (clone_repository E repo base_dir w) = Returned))
       \<and> (\<not> os_path_exists w (os_path_join (os_path_join base_dir d) ''.git'')
            \<and> fst (os_makedirs (os_path_join base_dir d) w) = Returned \<longrightarrow>
           (\<exists>k\<ge>1. commands (trace (snd (clone_repository E repo base_dir w))) =
                   commands (trace w)
                   @ take k (clone_command repo (os_path_join base_dir d)
                             # later_commands repo (os_path_join base_dir d))))
       \<and> clone_command repo (os_path_join base_dir d) =
           [''git'', ''clone'', ''--branch'',
            (case entry_branch repo of None \<Rightarrow> ''main'' | Some b \<Rightarrow> b),
            ''--single-branch'', the (entry_url repo), os_path_join base_dir d]"
proof -
  let ?dest = "os_path_join base_dir d"
  let ?git = "os_path_join ?dest ''.git''"
  let ?w1 = "emit (Log INFO (Cloning_sources (entry_repo repo))) w"
  let ?tail = "seq (checkout_commit E repo ?dest)
        (seq (update_submodules E repo ?dest) (execute_tasks E repo base_dir))"
  have dest: "?dest \<noteq> []" using assms(3) by (rule join_nonempty)
  note steps = clone_repository_steps [OF assms(1,2) dest, of E w]
  have after: "clone_repository E repo base_dir w = seq (clone_or_pull E repo ?dest) ?tail w2
      \<and> commands (trace w2) = commands (trace w)
      \<and> os_path_exists w2 ?git = os_path_exists w ?git"
    if mk: "os_makedirs ?dest ?w1 = (Returned, w2)" for w2
  proof -
    from exists_git_after_makedirs [OF dest mk]
    have "os_path_exists w2 ?git = os_path_exists w ?git" by simp
    moreover from os_makedirs_Returned [OF mk] have "commands (trace w2) = commands (trace w)"
      by auto
    ultimately show ?thesis using steps mk by simp
  qed
  have pull: "(\<exists>k\<ge>1. commands (trace (snd (clone_repository E repo base_dir w))) =
                   commands (trace w) @ take k (pull_command ?dest # later_commands repo ?dest))
           \<and> ((\<forall>c. succeeds E c) \<longrightarrow> fst (clone_repository E repo base_dir w) = Returned)"
    if ex: "os_path_exists w ?git"
  proof -
    from exists_git_directory [OF dest ex] obtain r es
      where "node_at (fs ?w1) (resolve ?w1 ?dest) = Some (Dir r es)" by auto
    from os_makedirs_existing [OF dest this]
    have mk: "os_makedirs ?dest ?w1 = (Returned, emit (Makedirs ?dest) ?w1)" .
    note a = after [OF mk]
    from a ex have ex2: "os_path_exists (emit (Makedirs ?dest) ?w1) ?git" by simp
    have "\<exists>k\<ge>1. commands (trace (snd (seq (clone_or_pull E repo ?dest) ?tail (emit (Makedirs ?dest) ?w1)))) =
           commands (trace (emit (Makedirs ?dest) ?w1))
           @ take k ((if os_path_exists (emit (Makedirs ?dest) ?w1) ?git then pull_command ?dest
                      else clone_command repo ?dest) # later_commands repo ?dest)"
      by (rule clone_or_pull_then) (rule ran_some_later)
    then have "\<exists>k\<ge>1. commands (trace (snd (clone_repository E repo base_dir w))) =
                   commands (trace w) @ take k (pull_command ?dest # later_commands repo ?dest)"
      using a ex2 by simp
    moreover have "fst (clone_repository E repo base_dir w) = Returned" if all: "\<forall>c. succeeds E c"
    proof -
      have "extends (ran_ok (later_commands repo ?dest)) ?tail"
        by (rule ran_ok_later) (simp add: all)
      moreover have "succeeds E (pull_command ?dest)" by (simp add: all)
      ultimately have "fst (seq (clone_or_pull E repo ?dest) ?tail (emit (Makedirs ?dest) ?w1)) = Returned"
        using ex2 by (rule clone_or_pull_then_ok)
      with a show ?thesis by simp
    qed
    ultimately show ?thesis by blast
  qed
  have clone: "\<exists>k\<ge>1. commands (trace (snd (clone_repository E repo base_dir w))) =
                   commands (trace w) @ take k (clone_command repo ?dest # later_commands repo ?dest)"
    if nex: "\<not> os_path_exists w ?git" and ret: "fst (os_makedirs ?dest w) = Returned"
  proof -
    from ret have "fst (os_makedirs ?dest ?w1) = Returned"
      by (simp add: os_makedirs_def Let_def split: if_splits sum.splits)
    then obtain w2 where mk: "os_makedirs ?dest ?w1 = (Returned, w2)"
      by (cases "os_makedirs ?dest ?w1") auto
    note a = after [OF mk]
    from a nex have nex2: "\<not> os_path_exists w2 ?git" by simp
    have "\<exists>k\<ge>1. commands (trace (snd (seq (clone_or_pull E repo ?dest) ?tail w2))) =
           commands (trace w2)
           @ take k ((if os_path_exists w2 ?git then pull_command ?dest
                      else clone_command repo ?dest) # later_commands repo ?dest)"
      by (rule clone_or_pull_then) (rule ran_some_later)
    with nex2 a show ?thesis by simp
  qed
  have "clone_command repo ?dest \<notin> set (pull_command ?dest # later_commands repo ?dest)"
    by (simp add: clone_command_def pull_command_def later_commands_def)
  moreover have "clone_command repo ?dest =
           [''git'', ''clone'', ''--branch'',
            (case entry_branch repo of None \<Rightarrow> ''main'' | Some b \<Rightarrow> b),
            ''--single-branch'', the (entry_url repo), ?dest]"
    by (simp add: clone_command_def get_default_def)
  ultimately show ?thesis using pull clone by blast
qed

theorem clone_or_update_witness:
  "os_path_exists example_world ''out/lib/.git''
   \<and> commands (trace (snd (clone_repository example_env example_entry ''out'' example_world)))
       = [[''git'', ''-C'', ''out/lib'', ''pull'']]
   \<and> fst (clone_repository example_env example_entry ''out'' example_world) = Returned
   \<and> \<not> os_path_exists example_world ''out/new/.git''
   \<and> commands (trace (snd (clone_repository example_env
         (example_entry\<lparr>entry_destination := Some ''new''\<rparr>) ''out'' example_world)))
       = [[''git'', ''clone'', ''--branch'', ''main'', ''--single-branch'',
           ''https://example.com/lib.git'', ''out/new'']]"
proof -
  have j: "os_path_join ''out'' ''lib'' = ''out/lib''" "os_path_join ''out/lib'' ''.git'' = ''out/lib/.git''"
    "os_path_join ''out'' ''new'' = ''out/new''" "os_path_join ''out/new'' ''.git'' = ''out/new/.git''"
    by (simp_all add: path_eval)
  have ex: "os_path_exists example_world ''out/lib/.git''"
    by (simp add: os_path_exists_def lookup_def example_world_def example_fs_def path_eval)
  have nex: "\<not> os_path_exists example_world ''out/new/.git''"
    by (simp add: os_path_exists_def lookup_def example_world_def example_fs_def path_eval)
  have mk: "fst (os_makedirs ''out/new'' example_world) = Returned"
    by (simp add: os_makedirs_def Let_def example_world_def example_fs_def path_eval)
  have all: "\<forall>c. succeeds example_env c"
    by (simp add: succeeds_def example_env_def)
  have later: "later_commands example_entry p = []" "later_commands (example_entry\<lparr>entry_destination := Some ''new''\<rparr>) p = []" for p
    by (simp_all add: later_commands_def example_entry_def truthy_def)
  let ?new = "example_entry\<lparr>entry_destination := Some ''new''\<rparr>"
  have h: "entry_destination example_entry = Some ''lib''" "truthy (entry_url example_entry)"
    "entry_destination ?new = Some ''new''" "truthy (entry_url ?new)" "''out'' \<noteq> []"
    by (simp_all add: example_entry_def truthy_def)
  from clone_or_update [OF h(1,2,5), of example_world example_env] ex all
  have pull: "(\<exists>k\<ge>1. commands (trace (snd (clone_repository example_env example_entry ''out'' example_world))) =
                 commands (trace example_world) @ take k [pull_command ''out/lib''])
      \<and> fst (clone_repository example_env example_entry ''out'' example_world) = Returned"
    by (simp add: j later)
  from clone_or_update [OF h(3,4,5), of example_world example_env] nex mk
  have clone: "\<exists>k\<ge>1. commands (trace (snd (clone_repository example_env
         (example_entry\<lparr>entry_destination := Some ''new''\<rparr>) ''out'' example_world))) =
                 commands (trace example_world)
                 @ take k [clone_command (example_entry\<lparr>entry_destination := Some ''new''\<rparr>) ''out/new'']"
    by (auto simp: j later)
  have tr: "commands (trace example_world) = []" by (simp add: example_world_def)
  have take1: "1 \<le> k \<Longrightarrow> take k [x] = [x]" for k :: nat and x :: "string list"
    by (cases k) simp_all
  from pull clone show ?thesis
    using ex nex
    by (auto simp: tr take1 pull_command_def clone_command_def get_default_def example_entry_def)
qed

lemma is_submodule_update_simps:
  "\<not> is_submodule_update (pull_command dest)"
  "\<not> is_submodule_update (clone_command repo dest)"
  by (simp_all add: is_submodule_update_def pull_command_def clone_command_def)

lemma filter_checkout: "filter is_submodule_update (checkout_commands repo dest) = []"
  by (simp add: is_submodule_update_def checkout_commands_def)

lemma filter_submodule:
  "filter is_submodule_update (submodule_commands repo dest) =
               (case submodule_mode (entry_submodules repo) of
                  Mode_none \<Rightarrow> []
                | Mode_non_recursive \<Rightarrow>
                    [[''git'', ''-C'', dest, ''submodule'', ''update'', ''--init'']]
                | Mode_recursive \<Rightarrow>
                    [[''git'', ''-C'', dest, ''submodule'', ''update'', ''--init'', ''--recursive'']])"
  by (simp add: is_submodule_update_def submodule_commands_def submodule_mode_def)

lemma clone_or_pull_then_ran:
  fixes tail :: "world \<Rightarrow> outcome \<times> world"
  assumes "extends (ran later) tail"
    and "succeeds E (pull_command dest)" and "succeeds E (clone_command repo dest)"
  shows "commands (trace (snd (seq (clone_or_pull E repo dest) tail w2))) =
           commands (trace w2)
           @ (if os_path_exists w2 (os_path_join dest ''.git'') then pull_command dest
              else clone_command repo dest) # later"
proof -
  let ?c = "if os_path_exists w2 (os_path_join dest ''.git'') then pull_command dest
            else clone_command repo dest"
  let ?msg = "if os_path_exists w2 (os_path_join dest ''.git'') then Repository_already_exists dest
              else Cloning_into (the (entry_url repo)) dest"
  let ?f = "\<lambda>w. run_command E ?c (emit (Log INFO ?msg) w)"
  have "clone_or_pull E repo dest w2 = ?f w2"
    by (simp add: clone_or_pull_def pull_command_def clone_command_def)
  then have eq: "seq (clone_or_pull E repo dest) tail w2 = seq ?f tail w2"
    by (rule seq_first_cong)
  have "succeeds E ?c" using assms(2,3) by simp
  then have "extends (ran_ok [?c]) ?f" by (rule ran_ok_logged_command)
  then have "extends (ran ([?c] @ later)) (seq ?f tail)"
    using assms(1) by (rule ran_seq_ok)
  from extendsD [OF this, of w2] obtain new
    where "trace (snd (seq ?f tail w2)) = trace w2 @ new" and "ran ([?c] @ later) (fst (seq ?f tail w2)) new"
    by blast
  then show ?thesis
    unfolding eq ran_def by simp
qed

lemma ran_submodules_then_tasks:
  "extends (ran (submodule_commands repo dest))
     (seq (update_submodules E repo dest) (execute_tasks E repo base_dir))"
  by (rule ran_seq_quiet [OF ran_update_submodules ran_ok_execute_tasks])

section \<open>The submodule step\<close>

text \<open>
  Claim C9.  The submodule mode of an entry is none when the value of \<^verbatim>\<open>submodules\<close> is absent (or
  empty), recursive when it is the string \<^verbatim>\<open>recursive\<close>, and non-recursive for every other
  value.  When provisioning reaches the step (url and destination are present, the destination
  directory can be made, and the clone or pull and the checkout succeed), the commands of the
  entry contain no submodule update for mode none, exactly one \<^verbatim>\<open>git submodule update --init\<close> for
  mode non-recursive, and exactly one with \<^verbatim>\<open>--recursive\<close> appended for mode recursive, whether
  or not that command itself succeeds.
\<close>

theorem submodule_step:
  assumes "entry_destination repo = Some d"
    and "truthy (entry_url repo)"
    and "base_dir \<noteq> []"
    and "fst (os_makedirs (os_path_join base_dir d) w) = Returned"
    and "succeeds E (pull_command (os_path_join base_dir d))"
    and "succeeds E (clone_command repo (os_path_join base_dir d))"
    and "list_all (succeeds E) (checkout_commands repo (os_path_join base_dir d))"
  shows "\<exists>cs. commands (trace (snd (clone_repository E repo base_dir w))) = commands (trace w) @ cs
           \<and> filter is_submodule_update cs =
               (case submodule_mode (entry_submodules repo) of
                  Mode_none \<Rightarrow> []
                | Mode_non_recursive \<Rightarrow>
                    [[''git'', ''-C'', os_path_join base_dir d, ''submodule'', ''update'', ''--init'']]
                | Mode_recursive \<Rightarrow>
                    [[''git'', ''-C'', os_path_join base_dir d, ''submodule'', ''update'', ''--init'',
                      ''--recursive'']])"
proof -
  let ?dest = "os_path_join base_dir d"
  let ?git = "os_path_join ?dest ''.git''"
  let ?w1 = "emit (Log INFO (Cloning_sources (entry_repo repo))) w"
  let ?tail = "seq (checkout_commit E repo ?dest)
        (seq (update_submodules E repo ?dest) (execute_tasks E repo base_dir))"
  have dest: "?dest \<noteq> []" using assms(3) by (rule join_nonempty)
  from assms(4) have "fst (os_makedirs ?dest ?w1) = Returned"
    by (simp add: os_makedirs_def Let_def split: if_splits sum.splits)
  then obtain w2 where mk: "os_makedirs ?dest ?w1 = (Returned, w2)"
    by (cases "os_makedirs ?dest ?w1") auto
  from os_makedirs_Returned [OF mk] have tr: "commands (trace w2) = commands (trace w)"
    by auto
  from clone_repository_steps [OF assms(1,2) dest, of E w] mk
  have run: "clone_repository E repo base_dir w = seq (clone_or_pull E repo ?dest) ?tail w2"
    by simp
  have "extends (ran_ok (checkout_commands repo ?dest)) (checkout_commit E repo ?dest)"
  proof (rule ran_ok_checkout_commit)
    fix c
    assume "c \<in> set (checkout_commands repo ?dest)"
    with assms(7) show "succeeds E c" by (simp add: list_all_iff)
  qed
  then have "extends (ran (checkout_commands repo ?dest @ submodule_commands repo ?dest)) ?tail"
    using ran_submodules_then_tasks by (rule ran_seq_ok)
  from clone_or_pull_then_ran [OF this assms(5,6), of w2]
  have "commands (trace (snd (clone_repository E repo base_dir w))) =
      commands (trace w)
      @ (if os_path_exists w2 ?git then pull_command ?dest else clone_command repo ?dest)
        # checkout_commands repo ?dest @ submodule_commands repo ?dest"
    by (simp add: run tr)
  moreover have "filter is_submodule_update
      ((if os_path_exists w2 ?git then pull_command ?dest else clone_command repo ?dest)
        # checkout_commands repo ?dest @ submodule_commands repo ?dest) =
               (case submodule_mode (entry_submodules repo) of
                  Mode_none \<Rightarrow> []
                | Mode_non_recursive \<Rightarrow>
                    [[''git'', ''-C'', ?dest, ''submodule'', ''update'', ''--init'']]
                | Mode_recursive \<Rightarrow>
                    [[''git'', ''-C'', ?dest, ''submodule'', ''update'', ''--init'', ''--recursive'']])"
    by (simp add: is_submodule_update_simps filter_checkout filter_submodule)
  ultimately show ?thesis by blast
qed

theorem submodule_step_witness:
  "filter is_submodule_update (commands (trace (snd (clone_repository example_env
       (example_entry\<lparr>entry_submodules := Some ''recursive''\<rparr>) ''out'' example_world))))
     = [[''git'', ''-C'', ''out/lib'', ''submodule'', ''update'', ''--init'', ''--recursive'']]
   \<and> filter is_submodule_update (commands (trace (snd (clone_repository example_env
       (example_entry\<lparr>entry_submodules := Some ''no-recursive''\<rparr>) ''out'' example_world))))
     = [[''git'', ''-C'', ''out/lib'', ''submodule'', ''update'', ''--init'']]
   \<and> filter is_submodule_update (commands (trace (snd (clone_repository example_env
       example_entry ''out'' example_world)))) = []"
proof -
  have j: "os_path_join ''out'' ''lib'' = ''out/lib''"
    by (simp add: path_eval)
  have mk: "fst (os_makedirs ''out/lib'' example_world) = Returned"
    by (simp add: os_makedirs_def Let_def example_world_def example_fs_def path_eval)
  have all: "succeeds example_env c" for c
    by (simp add: succeeds_def example_env_def)
  have tr: "commands (trace example_world) = []" by (simp add: example_world_def)
  have inst: "filter is_submodule_update (commands (trace (snd (clone_repository example_env
       (example_entry\<lparr>entry_submodules := v\<rparr>) ''out'' example_world)))) =
       (case submodule_mode v of
          Mode_none \<Rightarrow> []
        | Mode_non_recursive \<Rightarrow> [[''git'', ''-C'', ''out/lib'', ''submodule'', ''update'', ''--init'']]
        | Mode_recursive \<Rightarrow>
            [[''git'', ''-C'', ''out/lib'', ''submodule'', ''update'', ''--init'', ''--recursive'']])" for v
  proof -
    let ?e = "example_entry\<lparr>entry_submodules := v\<rparr>"
    have h: "entry_destination ?e = Some ''lib''" "truthy (entry_url ?e)" "''out'' \<noteq> []"
      by (simp_all add: example_entry_def truthy_def)
    have mk': "fst (os_makedirs (os_path_join ''out'' ''lib'') example_world) = Returned"
      using mk by (simp add: j)
    have ck: "list_all (succeeds example_env) (checkout_commands ?e (os_path_join ''out'' ''lib''))"
      by (simp add: list_all_iff all)
    from submodule_step [OF h mk' all all ck] show ?thesis
      by (auto simp: tr j split: submodule_mode.splits)
  qed
  have e: "example_entry\<lparr>entry_submodules := None\<rparr> = example_entry"
    by (simp add: example_entry_def)
  from inst [of "Some ''recursive''"] inst [of "Some ''no-recursive''"] inst [of None]
  show ?thesis
    by (simp add: e submodule_mode_def truthy_def)
qed

lemma only_simps [simp]: "only Q out [] = True" "only Q out (ev # evs) = (Q ev \<and> only Q out' evs)"
  "only Q out (xs @ ys) = (only Q out' xs \<and> only Q out'' ys)"
  by (simp_all add: only_def)















lemma on_paths_simps [simp]:
  "on_paths s d (Log lv (Copying s' d')) = (s' = s \<and> Some d' = d)"
  "on_paths s d (Log lv (Deleting s')) = (s' = s)"
  "on_paths s d (Log lv (Extracting s' d')) = (s' = s \<and> Some d' = d)"
  "on_paths s d (Log lv (Error_during_task a s' e)) = (s' = s)"
  "on_paths s d (Copytree s' d') = (s' = s \<and> Some d' = d)"
  "on_paths s d (Copy2 s' d') = (s' = s \<and> Some d' = d)"
  "on_paths s d (Rmtree s') = (s' = s)"
  "on_paths s d (Remove s') = (s' = s)"
  "on_paths s d (Extractall kind s' d') = (s' = s \<and> Some d' = d)"
  "on_paths s d (Makedirs p)"
  "on_paths s d (Log lv (Destination_not_specified n))"
  "on_paths s d (Log lv (Path_does_not_exist p))"
  "on_paths s d (Log lv (Unsupported_file_format p))"
  "on_paths s d (Log lv (Error_extracting p e))"
  "on_paths s d (Log lv (Unknown_action a n))"
  by (simp_all add: on_paths_def task_paths_def)






lemma joined_to_other [simp]: "task_paths ev = None \<Longrightarrow> joined_to root ts ev"
  by (simp add: joined_to_def)


lemma task_paths_None [simp]:
  "task_paths (Makedirs p) = None"
  "task_paths (Open_wb p) = None"
  "task_paths (Requests_get u) = None"
  "task_paths (Subprocess_run c r) = None"
  "task_paths (Log lv (CMDDBG c x)) = None"
  "task_paths (Log lv (CMDERR c x)) = None"
  "task_paths (Log lv (Error_running_command c)) = None"
  "task_paths (Log lv (Cloning_sources n)) = None"
  "task_paths (Log lv Missing_url_or_destination_for_a_repository) = None"
  "task_paths (Log lv (Cloning_into u p)) = None"
  "task_paths (Log lv (Repository_already_exists p)) = None"
  "task_paths (Log lv (Checking_out_commit x p)) = None"
  "task_paths (Log lv (Initializing_submodules p)) = None"
  "task_paths (Log lv Missing_url_or_destination_for_download) = None"
  "task_paths (Log lv (Downloading u p)) = None"
  "task_paths (Log lv Project_key_not_found) = None"
  by (simp_all add: task_paths_def)






section \<open>Task paths are relative to the project root\<close>



section \<open>Lemmas on merging directories\<close>


















section \<open>The copy operation\<close>




end
